theory Spec2Isabelle
  imports Complex_Main "HOL-Library.List_Lexorder" "HOL-Library.Sublist"
begin

section \<open>Strings\<close>

text \<open>
  A Python \<open>str\<close> is a sequence of Unicode code points; it is modelled as a list of
  natural numbers. \<open>ustr\<close> reads an ASCII literal as such a string.
\<close>

type_synonym ustring = "nat list"

definition ustr :: "string \<Rightarrow> ustring" where
  "ustr s = map of_char s"

text \<open>
  \<open>str.isspace\<close> per code point; \<open>str.strip()\<close> and the regular expression class
  \<open>\s\<close> (on a \<open>str\<close> pattern) use it.
\<close>

definition is_space :: "nat \<Rightarrow> bool" where
  "is_space c = ((9 \<le> c \<and> c \<le> 13) \<or> (28 \<le> c \<and> c \<le> 32) \<or> c = 133 \<or> c = 160
     \<or> c = 5760 \<or> (8192 \<le> c \<and> c \<le> 8202) \<or> c = 8232 \<or> c = 8233 \<or> c = 8239
     \<or> c = 8287 \<or> c = 12288)"

definition is_ascii :: "nat \<Rightarrow> bool" where
  "is_ascii c = (c < 128)"

definition is_digit :: "nat \<Rightarrow> bool" where
  "is_digit c = (48 \<le> c \<and> c \<le> 57)"

definition is_upper_ascii :: "nat \<Rightarrow> bool" where
  "is_upper_ascii c = (65 \<le> c \<and> c \<le> 90)"

definition is_lower_ascii :: "nat \<Rightarrow> bool" where
  "is_lower_ascii c = (97 \<le> c \<and> c \<le> 122)"

definition is_alnum_ascii :: "nat \<Rightarrow> bool" where
  "is_alnum_ascii c = (is_digit c \<or> is_upper_ascii c \<or> is_lower_ascii c)"

text \<open>The class \<open>\w\<close> on ASCII text: letters, digits and the underscore (95).\<close>

definition is_word_ascii :: "nat \<Rightarrow> bool" where
  "is_word_ascii c = (is_alnum_ascii c \<or> c = 95)"

text \<open>\<open>str.lower\<close> on ASCII text.\<close>

definition lower_ascii :: "nat \<Rightarrow> nat" where
  "lower_ascii c = (if is_upper_ascii c then c + 32 else c)"

text \<open>\<open>s.strip(chars)\<close>: drop the leading and the trailing characters that satisfy \<open>P\<close>.\<close>

definition strip_by :: "(nat \<Rightarrow> bool) \<Rightarrow> ustring \<Rightarrow> ustring" where
  "strip_by P s = rev (dropWhile P (rev (dropWhile P s)))"

definition strip :: "ustring \<Rightarrow> ustring" where
  "strip s = strip_by is_space s"

text \<open>
  \<open>re.sub(r"\s+", "_", text)\<close>: every maximal run of white space becomes one underscore.
\<close>

function collapse_ws :: "ustring \<Rightarrow> ustring" where
  "collapse_ws [] = []"
| "collapse_ws (c # cs) =
     (if is_space c then 95 # collapse_ws (dropWhile is_space cs)
      else c # collapse_ws cs)"
  by pat_completeness auto
termination
  by (relation "measure length") (auto simp: length_dropWhile_le less_Suc_eq_le)

text \<open>\<open>s.split(sep)\<close> for a one-character separator: \<open>"".split("_") = [""]\<close>.\<close>

fun split_on :: "nat \<Rightarrow> ustring \<Rightarrow> ustring list" where
  "split_on sep [] = [[]]"
| "split_on sep (c # cs) =
     (if c = sep then [] # split_on sep cs
      else (case split_on sep cs of
              [] \<Rightarrow> [[c]]
            | w # ws \<Rightarrow> (c # w) # ws))"

text \<open>\<open>sep.join(parts)\<close>.\<close>

fun join :: "ustring \<Rightarrow> ustring list \<Rightarrow> ustring" where
  "join sep [] = []"
| "join sep [w] = w"
| "join sep (w # ws) = w @ sep @ join sep ws"

text \<open>\<open>s.startswith(p)\<close> and the substring test \<open>p in s\<close>.\<close>

fun startswith :: "ustring \<Rightarrow> ustring \<Rightarrow> bool" where
  "startswith s [] = True"
| "startswith [] (p # ps) = False"
| "startswith (c # cs) (p # ps) = (c = p \<and> startswith cs ps)"

fun contains :: "ustring \<Rightarrow> ustring \<Rightarrow> bool" where
  "contains [] p = (p = [])"
| "contains (c # cs) p = (startswith (c # cs) p \<or> contains cs p)"

section \<open>Text Normalizer (\<open>_create_logo_assignment.py\<close>)\<close>

text \<open>
  \<open>unicodedata.normalize("NFKD", text)\<close> is a library function; it is the parameter
  \<open>nfkd\<close>. The rest of \<open>normalise\<close> is the code: keep the ASCII code points
  (\<open>encode("ascii", "ignore")\<close>), lower them, delete what is neither a word character nor
  white space, collapse white space to \<open>_\<close>, strip \<open>_\<close> at both ends.
\<close>

definition normalise :: "(ustring \<Rightarrow> ustring) \<Rightarrow> ustring \<Rightarrow> ustring" where
  "normalise nfkd text =
     (let t1 = nfkd text;
          t2 = filter is_ascii t1;
          t3 = map lower_ascii t2;
          t4 = filter (\<lambda>c. is_word_ascii c \<or> is_space c) t3;
          t5 = collapse_ws t4
      in strip_by (\<lambda>c. c = 95) t5)"

definition STOPWORDS :: "ustring set" where
  "STOPWORDS = set (map ustr [''fc'', ''f'', ''c'', ''afc'', ''the'', ''city'', ''town'',
     ''united'', ''utd'', ''football'', ''club''])"

definition tokens :: "(ustring \<Rightarrow> ustring) \<Rightarrow> ustring \<Rightarrow> ustring list" where
  "tokens nfkd text = [t \<leftarrow> split_on 95 (normalise nfkd text). t \<noteq> [] \<and> t \<notin> STOPWORDS]"

section \<open>Fuzzy Entity Matcher (\<open>_create_logo_assignment.py\<close>)\<close>

text \<open>
  One entry of \<open>logos\<close>: the dictionary built for an image file of a league directory
  (lines 44-49), with its keys \<open>league\<close>, \<open>path\<close>, \<open>stem\<close> and \<open>tokens\<close>.
\<close>

record logo =
  logo_league :: ustring
  logo_path :: ustring
  logo_stem :: ustring
  logo_tokens :: "ustring set"

definition load_logo :: "(ustring \<Rightarrow> ustring) \<Rightarrow> ustring \<Rightarrow> ustring \<Rightarrow> ustring \<Rightarrow> logo" where
  "load_logo nfkd league file_name file_stem =
     \<lparr>logo_league = league,
      logo_path = ustr ''club_logos_by_league/'' @ league @ ustr ''/'' @ file_name,
      logo_stem = normalise nfkd file_stem,
      logo_tokens = set (tokens nfkd file_stem)\<rparr>"

text \<open>
  The four loops of the matching block (lines 69-104). Each takes the current value of
  \<open>best\<close> and returns the new one; \<open>break\<close> ends the loop at the first hit.
\<close>

fun exact_loop :: "logo list \<Rightarrow> ustring \<Rightarrow> ustring \<Rightarrow> logo option \<Rightarrow> logo option" where
  "exact_loop [] league club_norm best = best"
| "exact_loop (l # ls) league club_norm best =
     (if logo_league l = league \<and> logo_stem l = club_norm then Some l
      else exact_loop ls league club_norm best)"

fun containment_loop :: "logo list \<Rightarrow> ustring \<Rightarrow> ustring \<Rightarrow> logo option \<Rightarrow> logo option" where
  "containment_loop [] league club_norm best = best"
| "containment_loop (l # ls) league club_norm best =
     (if logo_league l = league \<and> contains (logo_stem l) club_norm then Some l
      else containment_loop ls league club_norm best)"

fun base_loop :: "logo list \<Rightarrow> ustring \<Rightarrow> ustring \<Rightarrow> logo option \<Rightarrow> logo option" where
  "base_loop [] league base best = best"
| "base_loop (l # ls) league base best =
     (if logo_league l = league \<and> base \<noteq> [] \<and> contains (logo_stem l) base then Some l
      else base_loop ls league base best)"

definition score :: "ustring set \<Rightarrow> logo \<Rightarrow> nat" where
  "score club_tokens l = card (club_tokens \<inter> logo_tokens l)"

fun overlap_loop ::
  "logo list \<Rightarrow> ustring \<Rightarrow> ustring set \<Rightarrow> logo option \<times> nat \<Rightarrow> logo option \<times> nat" where
  "overlap_loop [] league club_tokens st = st"
| "overlap_loop (l # ls) league club_tokens (best, best_score) =
     (if logo_league l \<noteq> league then overlap_loop ls league club_tokens (best, best_score)
      else if score club_tokens l > best_score
        then overlap_loop ls league club_tokens (Some l, score club_tokens l)
        else overlap_loop ls league club_tokens (best, best_score))"

text \<open>Tier 4 as the code runs it (lines 94-104), entered with \<open>best = None\<close>.\<close>

definition overlap_tier ::
  "logo list \<Rightarrow> ustring \<Rightarrow> ustring set \<Rightarrow> logo option \<times> nat \<Rightarrow> logo option \<times> nat" where
  "overlap_tier logos league club_tokens st =
     (case overlap_loop logos league club_tokens st of
        (best, best_score) \<Rightarrow> if best_score < 1 then (None, best_score) else (best, best_score))"

text \<open>
  The body of the club loop for a club whose name and league are present (lines 66-104):
  the value of \<open>best\<close> after the four guarded blocks. A logo dictionary is never empty, so
  \<open>not best\<close> holds exactly when \<open>best\<close> is \<open>None\<close>.
\<close>

definition match_club ::
  "(ustring \<Rightarrow> ustring) \<Rightarrow> logo list \<Rightarrow> ustring \<Rightarrow> ustring \<Rightarrow> logo option" where
  "match_club nfkd logos name league =
     (let club_norm = normalise nfkd name;
          club_tokens = set (tokens nfkd name);
          best0 = None;
          best_score0 = (0::nat);
          best1 = exact_loop logos league club_norm best0;
          best2 = (if best1 = None then containment_loop logos league club_norm best1
                   else best1);
          best3 = (if best2 = None
                   then (let base = join [95] (tokens nfkd name)
                         in base_loop logos league base best2)
                   else best2);
          st4 = (if best3 = None then overlap_tier logos league club_tokens (best3, best_score0)
                 else (best3, best_score0))
      in fst st4)"

text \<open>
  A club entry of \<open>clubs.json\<close>: the keys the matcher reads and writes. A missing key is
  \<open>None\<close>.
\<close>

record club =
  entry_name :: "ustring option"
  entry_league :: "ustring option"
  entry_logo :: "ustring option"

text \<open>Truthiness of \<open>club.get(key)\<close>: \<open>None\<close> and the empty string are false.\<close>

definition truthy :: "ustring option \<Rightarrow> bool" where
  "truthy v = (case v of None \<Rightarrow> False | Some s \<Rightarrow> s \<noteq> [])"

record match_state =
  out_clubs :: "club list"
  matched :: nat
  missing :: nat

text \<open>One iteration of the club loop (lines 59-112).\<close>

definition club_step ::
  "(ustring \<Rightarrow> ustring) \<Rightarrow> logo list \<Rightarrow> match_state \<Rightarrow> club \<Rightarrow> match_state" where
  "club_step nfkd logos st c =
     (if \<not> truthy (entry_name c) \<or> \<not> truthy (entry_league c)
      then st\<lparr>out_clubs := out_clubs st @ [c]\<rparr>
      else (case match_club nfkd logos (the (entry_name c)) (the (entry_league c)) of
              Some best \<Rightarrow>
                st\<lparr>out_clubs := out_clubs st @ [c\<lparr>entry_logo := Some (logo_path best)\<rparr>],
                   matched := matched st + 1\<rparr>
            | None \<Rightarrow>
                st\<lparr>out_clubs := out_clubs st @ [c], missing := missing st + 1\<rparr>))"

definition assign_logos ::
  "(ustring \<Rightarrow> ustring) \<Rightarrow> logo list \<Rightarrow> club list \<Rightarrow> match_state" where
  "assign_logos nfkd logos clubs =
     foldl (club_step nfkd logos) \<lparr>out_clubs = [], matched = 0, missing = 0\<rparr> clubs"

text \<open>
  The four tiers as the specification words them, each a function from the target and the
  pool to an optional candidate.
\<close>

definition tier_exact ::
  "(ustring \<Rightarrow> ustring) \<Rightarrow> logo list \<Rightarrow> ustring \<Rightarrow> ustring \<Rightarrow> logo option" where
  "tier_exact nfkd logos name league =
     find (\<lambda>l. logo_league l = league \<and> logo_stem l = normalise nfkd name) logos"

definition tier_containment ::
  "(ustring \<Rightarrow> ustring) \<Rightarrow> logo list \<Rightarrow> ustring \<Rightarrow> ustring \<Rightarrow> logo option" where
  "tier_containment nfkd logos name league =
     find (\<lambda>l. logo_league l = league \<and> contains (logo_stem l) (normalise nfkd name)) logos"

definition tier_base ::
  "(ustring \<Rightarrow> ustring) \<Rightarrow> logo list \<Rightarrow> ustring \<Rightarrow> ustring \<Rightarrow> logo option" where
  "tier_base nfkd logos name league =
     (let base = join [95] (tokens nfkd name)
      in if base = [] then None
         else find (\<lambda>l. logo_league l = league \<and> contains (logo_stem l) base) logos)"

definition tier_overlap ::
  "(ustring \<Rightarrow> ustring) \<Rightarrow> logo list \<Rightarrow> ustring \<Rightarrow> ustring \<Rightarrow> logo option" where
  "tier_overlap nfkd logos name league =
     (let club_tokens = set (tokens nfkd name);
          cands = filter (\<lambda>l. logo_league l = league) logos;
          m = fold max (map (score club_tokens) cands) 0
      in if m < 1 then None else find (\<lambda>l. score club_tokens l = m) cands)"

definition resolve ::
  "(ustring \<Rightarrow> ustring) \<Rightarrow> logo list \<Rightarrow> ustring \<Rightarrow> ustring \<Rightarrow> logo option" where
  "resolve nfkd logos name league =
     (case tier_exact nfkd logos name league of
        Some l \<Rightarrow> Some l
      | None \<Rightarrow>
          (case tier_containment nfkd logos name league of
             Some l \<Rightarrow> Some l
           | None \<Rightarrow>
               (case tier_base nfkd logos name league of
                  Some l \<Rightarrow> Some l
                | None \<Rightarrow> tier_overlap nfkd logos name league)))"

section \<open>Alias Generator (\<open>_generate_clubs.py\<close>)\<close>

text \<open>
  \<open>s.replace(old, new)\<close>, left to right without overlap. Every call of the program has a
  non-empty \<open>old\<close>; for an empty \<open>old\<close> the definition returns \<open>s\<close>.
\<close>

function replace :: "ustring \<Rightarrow> ustring \<Rightarrow> ustring \<Rightarrow> ustring" where
  "replace old new [] = []"
| "replace old new (c # cs) =
     (if old \<noteq> [] \<and> startswith (c # cs) old
      then new @ replace old new (drop (length old) (c # cs))
      else c # replace old new cs)"
  by pat_completeness auto
termination
  by (relation "measure (\<lambda>(old, new, s). length s)") auto

text \<open>\<open>re.findall(r"[a-z0-9]+", s)\<close>: the maximal runs of lower-case letters and digits.\<close>

definition is_lower_digit :: "nat \<Rightarrow> bool" where
  "is_lower_digit c = (is_lower_ascii c \<or> is_digit c)"

function findall_words :: "ustring \<Rightarrow> ustring list" where
  "findall_words s =
     (case dropWhile (\<lambda>c. \<not> is_lower_digit c) s of
        [] \<Rightarrow> []
      | c # cs \<Rightarrow> (c # takeWhile is_lower_digit cs) # findall_words (dropWhile is_lower_digit cs))"
  by pat_completeness auto
termination
proof (relation "measure length")
  show "wf (measure length)" by simp
next
  fix s :: ustring and c cs
  assume "dropWhile (\<lambda>c. \<not> is_lower_digit c) s = c # cs"
  then have "length (c # cs) \<le> length s"
    by (metis length_dropWhile_le)
  moreover have "length (dropWhile is_lower_digit cs) \<le> length cs"
    by (rule length_dropWhile_le)
  ultimately show "(dropWhile is_lower_digit cs, s) \<in> measure length" by simp
qed

text \<open>
  \<open>build_aliases\<close> (lines 62-80). \<open>str.lower\<close> on arbitrary text is the parameter
  \<open>lower\<close>. The set \<open>aliases\<close> is kept as the list of the values added to it; the
  final \<open>sorted\<close> of the filtered set is \<open>sort\<close> after \<open>remdups\<close>, strings ordered by
  code point.
\<close>

definition build_aliases :: "(ustring \<Rightarrow> ustring) \<Rightarrow> ustring \<Rightarrow> ustring list" where
  "build_aliases lower name =
     (let base = replace (ustr ''.'') [] (lower name);
          aliases = [base];
          aliases = aliases @ [strip (replace (ustr '' football club'') [] base)];
          aliases = aliases @
            [strip (replace (ustr '' fc'') [] (replace (ustr '' f.c.'') [] base))];
          words = findall_words base;
          aliases = (if length words \<ge> 2 then aliases @ [map hd words] else aliases);
          aliases = aliases @ [replace (ustr ''&'') (ustr ''and'') base];
          aliases = map strip (filter (\<lambda>a. strip a \<noteq> []) aliases)
      in sort (remdups aliases))"

section \<open>Documents and the outside world (\<open>_generate_clubs.py\<close>)\<close>

text \<open>
  What the code reads from a parsed page, in the order BeautifulSoup returns it. An anchor
  carries \<open>a["href"]\<close> and \<open>a.get_text(" ", strip=True)\<close>. A cell carries its lower-cased
  stripped text and its anchors that have an \<open>href\<close>, in document order. A row is
  \<open>tr.find_all(["th", "td"])\<close>. A table carries the lower-cased text of each of its
  \<open>th\<close> elements and \<open>table.find_all("tr")\<close>.
\<close>

record anchor =
  href :: ustring
  atext :: ustring

record cell =
  cell_text :: ustring
  cell_anchors :: "anchor list"

record wikitable =
  th_texts :: "ustring list"
  trs :: "cell list list"

text \<open>
  A row of the infobox: the lower-cased label of its first \<open>th\<close> (if any) and, of its
  first \<open>td\<close> (if any), the first anchor with an \<open>href\<close> and the stripped text.
\<close>

record info_td =
  td_anchor :: "anchor option"
  td_text :: ustring

record info_row =
  row_th :: "ustring option"
  row_td :: "info_td option"

text \<open>
  A fetched page: its tables of class \<open>wikitable\<close>, the rows of its first table of class
  \<open>infobox\<close>, the text of its first \<open>span.geo\<close> (\<open>get_text(strip=True)\<close>) and of its first
  \<open>span.geo-dec\<close>.
\<close>

record page =
  wikitables :: "wikitable list"
  infobox :: "info_row list option"
  geo :: "ustring option"
  geo_dec :: "ustring option"

datatype exn = HTTPError | RequestError | ValueError

text \<open>
  The library functions and the network are parameters: \<open>http_get\<close> (lines 82-85, followed
  by the parse) returns the page or the exception raised, \<open>urljoin\<close> is
  \<open>urllib.parse.urljoin\<close>, \<open>py_float\<close> is the builtin \<open>float\<close> on a string (\<open>None\<close> when it
  raises \<open>ValueError\<close>), \<open>round6\<close> is \<open>round(x, 6)\<close>, \<open>str_lower\<close> is \<open>str.lower\<close>. The
  type \<open>'f\<close> stands for Python's floats. \<open>slugify\<close> (lines 54-60) is a total function from
  strings to strings that only supplies the dictionary key; it is a parameter as well.
\<close>

record 'f env =
  http_get :: "ustring \<Rightarrow> exn + page"
  urljoin :: "ustring \<Rightarrow> ustring \<Rightarrow> ustring"
  py_float :: "ustring \<Rightarrow> 'f option"
  round6 :: "'f \<Rightarrow> 'f"
  str_lower :: "ustring \<Rightarrow> ustring"
  slugify :: "ustring \<Rightarrow> ustring"

definition WIKI :: ustring where
  "WIKI = ustr ''https://en.wikipedia.org''"

definition normalize_wiki_href :: "(ustring \<Rightarrow> ustring \<Rightarrow> ustring) \<Rightarrow> ustring \<Rightarrow> ustring" where
  "normalize_wiki_href join_url h =
     (if startswith h (ustr ''http'') then h else join_url WIKI h)"

definition is_wiki_article_link :: "ustring \<Rightarrow> bool" where
  "is_wiki_article_link h =
     (if h = [] then False
      else if \<not> startswith h (ustr ''/wiki/'') then False
      else if contains h (ustr ''redlink=1'') then False
      else if startswith h (ustr ''/wiki/File:'') \<or> startswith h (ustr ''/wiki/Help:'')
              \<or> startswith h (ustr ''/wiki/Special:'') then False
      else True)"

section \<open>Document Table Extractor\<close>

text \<open>The search for \<open>team_idx\<close> (lines 137-143).\<close>

definition is_team_col :: "ustring \<Rightarrow> bool" where
  "is_team_col name =
     (name = ustr ''team'' \<or> name = ustr ''club'' \<or> contains name (ustr ''team'')
      \<or> contains name (ustr ''club''))"

fun team_idx_loop :: "nat \<Rightarrow> ustring list \<Rightarrow> nat option" where
  "team_idx_loop i [] = None"
| "team_idx_loop i (name # names) =
     (if is_team_col name then Some i else team_idx_loop (Suc i) names)"

text \<open>One row of a standings table (lines 147-164): the pair it appends, if any.\<close>

definition row_candidate ::
  "(ustring \<Rightarrow> ustring \<Rightarrow> ustring) \<Rightarrow> nat \<Rightarrow> cell list \<Rightarrow> (ustring \<times> ustring) option" where
  "row_candidate join_url team_idx tds =
     (if length tds \<le> team_idx then None
      else (case cell_anchors (tds ! team_idx) of
              [] \<Rightarrow> None
            | a # _ \<Rightarrow>
                if \<not> is_wiki_article_link (href a) then None
                else if atext a = [] then None
                else Some (atext a, normalize_wiki_href join_url (href a))))"

fun rows_loop ::
  "(ustring \<Rightarrow> ustring \<Rightarrow> ustring) \<Rightarrow> nat \<Rightarrow> cell list list \<Rightarrow> (ustring \<times> ustring) list
     \<Rightarrow> (ustring \<times> ustring) list" where
  "rows_loop join_url team_idx [] candidates = candidates"
| "rows_loop join_url team_idx (tr # rest) candidates =
     (case row_candidate join_url team_idx tr of
        None \<Rightarrow> rows_loop join_url team_idx rest candidates
      | Some p \<Rightarrow> rows_loop join_url team_idx rest (candidates @ [p]))"

text \<open>One table (lines 122-164).\<close>

definition table_step ::
  "(ustring \<Rightarrow> ustring \<Rightarrow> ustring) \<Rightarrow> wikitable \<Rightarrow> (ustring \<times> ustring) list
     \<Rightarrow> (ustring \<times> ustring) list" where
  "table_step join_url t candidates =
     (let header_text = join (ustr '' '') (th_texts t)
      in if \<not> contains header_text (ustr ''pos'')
            \<or> (\<not> contains header_text (ustr ''team'') \<and> \<not> contains header_text (ustr ''club''))
         then candidates
         else (case trs t of
                 [] \<Rightarrow> candidates
               | header_row # rest \<Rightarrow>
                   (case team_idx_loop 0 (map cell_text header_row) of
                      None \<Rightarrow> candidates
                    | Some team_idx \<Rightarrow> rows_loop join_url team_idx rest candidates)))"

fun tables_loop ::
  "(ustring \<Rightarrow> ustring \<Rightarrow> ustring) \<Rightarrow> wikitable list \<Rightarrow> (ustring \<times> ustring) list
     \<Rightarrow> (ustring \<times> ustring) list" where
  "tables_loop join_url [] candidates = candidates"
| "tables_loop join_url (t # ts) candidates =
     tables_loop join_url ts (table_step join_url t candidates)"

text \<open>The de-duplication loop (lines 167-173).\<close>

fun dedupe_loop ::
  "(ustring \<times> ustring) list \<Rightarrow> ustring set \<Rightarrow> (ustring \<times> ustring) list
     \<Rightarrow> (ustring \<times> ustring) list" where
  "dedupe_loop [] seen out = out"
| "dedupe_loop ((name, url) # rest) seen out =
     (if url \<in> seen then dedupe_loop rest seen out
      else dedupe_loop rest (insert url seen) (out @ [(name, url)]))"

definition extract_entity_links ::
  "(ustring \<Rightarrow> ustring \<Rightarrow> ustring) \<Rightarrow> wikitable list \<Rightarrow> (ustring \<times> ustring) list" where
  "extract_entity_links join_url tables =
     dedupe_loop (tables_loop join_url tables []) {} []"

definition scrape_club_links_from_league ::
  "'f env \<Rightarrow> ustring \<Rightarrow> exn + (ustring \<times> ustring) list" where
  "scrape_club_links_from_league env league_url =
     (case http_get env league_url of
        Inl e \<Rightarrow> Inl e
      | Inr pg \<Rightarrow> Inr (extract_entity_links (urljoin env) (wikitables pg)))"

section \<open>Infobox Field Extractor\<close>

definition GROUND_LABELS :: "ustring set" where
  "GROUND_LABELS = {ustr ''ground'', ustr ''home ground'', ustr ''stadium''}"

fun ground_rows_loop ::
  "(ustring \<Rightarrow> ustring \<Rightarrow> ustring) \<Rightarrow> info_row list \<Rightarrow> (ustring \<times> ustring option) option" where
  "ground_rows_loop join_url [] = None"
| "ground_rows_loop join_url (r # rs) =
     (case row_th r of
        None \<Rightarrow> ground_rows_loop join_url rs
      | Some label \<Rightarrow>
          (case row_td r of
             None \<Rightarrow> ground_rows_loop join_url rs
           | Some td \<Rightarrow>
               if label \<in> GROUND_LABELS then
                 (case td_anchor td of
                    Some a \<Rightarrow>
                      if is_wiki_article_link (href a)
                      then Some (atext a, Some (normalize_wiki_href join_url (href a)))
                      else if td_text td \<noteq> [] then Some (td_text td, None)
                      else ground_rows_loop join_url rs
                  | None \<Rightarrow>
                      if td_text td \<noteq> [] then Some (td_text td, None)
                      else ground_rows_loop join_url rs)
               else ground_rows_loop join_url rs))"

definition find_home_ground_link ::
  "'f env \<Rightarrow> ustring \<Rightarrow> exn + (ustring \<times> ustring option) option" where
  "find_home_ground_link env club_url =
     (case http_get env club_url of
        Inl e \<Rightarrow> Inl e
      | Inr pg \<Rightarrow>
          (case infobox pg of
             None \<Rightarrow> Inr None
           | Some rows \<Rightarrow> Inr (ground_rows_loop (urljoin env) rows)))"

section \<open>Coordinate Extractor\<close>

text \<open>
  The body of the \<open>try\<close> of lines 231-233: split at \<open>;\<close> (59), strip each part, unpack into
  exactly two names, convert both. Each failure is the \<open>ValueError\<close> Python raises there.
\<close>

definition parse_geo :: "(ustring \<Rightarrow> 'f option) \<Rightarrow> ustring \<Rightarrow> exn + 'f \<times> 'f" where
  "parse_geo flt txt =
     (case map strip (split_on 59 txt) of
        [lat_str, lon_str] \<Rightarrow>
          (case flt lat_str of
             None \<Rightarrow> Inl ValueError
           | Some lat \<Rightarrow>
               (case flt lon_str of
                  None \<Rightarrow> Inl ValueError
                | Some lon \<Rightarrow> Inr (lat, lon)))
      | _ \<Rightarrow> Inl ValueError)"

text \<open>The part of \<open>extract_coords_from_wiki_page\<close> after the fetch (lines 229-245).\<close>

definition coords_of_page :: "(ustring \<Rightarrow> 'f option) \<Rightarrow> page \<Rightarrow> ('f \<times> 'f) option" where
  "coords_of_page flt pg =
     (let fallback = (case geo_dec pg of Some txt \<Rightarrow> None | None \<Rightarrow> None)
      in case geo pg of
           Some txt \<Rightarrow>
             (case parse_geo flt txt of
                Inr c \<Rightarrow> Some c
              | Inl e \<Rightarrow> fallback)
         | None \<Rightarrow> fallback)"

definition extract_coords_from_wiki_page ::
  "'f env \<Rightarrow> ustring option \<Rightarrow> exn + ('f \<times> 'f) option" where
  "extract_coords_from_wiki_page env url =
     (if \<not> truthy url then Inr None
      else (case http_get env (the url) of
              Inl e \<Rightarrow> Inl e
            | Inr pg \<Rightarrow> Inr (coords_of_page (py_float env) pg)))"

section \<open>Scraping Pipeline\<close>

text \<open>An entry of \<open>LEAGUES\<close> and the dictionary stored in \<open>all_clubs\<close> (lines 282-294).\<close>

record league =
  league_name :: ustring
  country :: ustring
  code :: ustring
  tier :: int
  league_url :: ustring

record 'f club_record =
  rec_id :: ustring
  rec_name :: ustring
  rec_country :: ustring
  rec_league :: ustring
  rec_tier :: int
  rec_lat :: 'f
  rec_lon :: 'f
  rec_ground :: ustring
  rec_aliases :: "ustring list"
  rec_wikipedia :: ustring
  rec_ground_wikipedia :: "ustring option"

text \<open>The lines \<open>main\<close> prints, one constructor for each \<open>print\<close>.\<close>

datatype log_line =
    Scraping ustring
  | NoClubsFound
  | FoundLinks nat
  | NoGround ustring
  | NoCoords ustring ustring
  | Scraped ustring ustring
  | HttpErrorLine ustring exn
  | ErrorLine ustring exn

record 'f scrape_state =
  all_clubs :: "ustring \<rightharpoonup> 'f club_record"
  log :: "log_line list"

text \<open>
  The \<open>try\<close> block of the club loop (lines 268-297): the exception that leaves it, if any,
  and the state at that moment. \<open>time.sleep\<close> has no effect on the state.
\<close>

definition try_body ::
  "'f env \<Rightarrow> league \<Rightarrow> ustring \<Rightarrow> ustring \<Rightarrow> ustring \<Rightarrow> 'f scrape_state
     \<Rightarrow> exn option \<times> 'f scrape_state" where
  "try_body env lg club_id club_name club_url st =
     (case find_home_ground_link env club_url of
        Inl e \<Rightarrow> (Some e, st)
      | Inr None \<Rightarrow> (None, st\<lparr>log := log st @ [NoGround club_name]\<rparr>)
      | Inr (Some (ground_name, ground_url)) \<Rightarrow>
          (case (if truthy ground_url then extract_coords_from_wiki_page env ground_url
                 else Inr None) of
             Inl e \<Rightarrow> (Some e, st)
           | Inr None \<Rightarrow> (None, st\<lparr>log := log st @ [NoCoords club_name ground_name]\<rparr>)
           | Inr (Some (lat, lon)) \<Rightarrow>
               (None,
                st\<lparr>all_clubs := (all_clubs st)(club_id \<mapsto>
                      \<lparr>rec_id = club_id,
                       rec_name = club_name,
                       rec_country = country lg,
                       rec_league = code lg,
                       rec_tier = tier lg,
                       rec_lat = round6 env lat,
                       rec_lon = round6 env lon,
                       rec_ground = ground_name,
                       rec_aliases = build_aliases (str_lower env) club_name,
                       rec_wikipedia = club_url,
                       rec_ground_wikipedia = ground_url\<rparr>),
                   log := log st @ [Scraped club_name ground_name]\<rparr>)))"

text \<open>
  One iteration of the club loop (lines 264-302): the \<open>try\<close> block with its two handlers,
  \<open>except requests.HTTPError\<close> and \<open>except Exception\<close>.
\<close>

definition process_club ::
  "'f env \<Rightarrow> league \<Rightarrow> 'f scrape_state \<Rightarrow> ustring \<times> ustring \<Rightarrow> 'f scrape_state" where
  "process_club env lg st c =
     (case c of (club_name, club_url) \<Rightarrow>
        (let club_id = slugify env club_name
         in case try_body env lg club_id club_name club_url st of
              (None, st') \<Rightarrow> st'
            | (Some HTTPError, st') \<Rightarrow> st'\<lparr>log := log st' @ [HttpErrorLine club_name HTTPError]\<rparr>
            | (Some e, st') \<Rightarrow> st'\<lparr>log := log st' @ [ErrorLine club_name e]\<rparr>))"

definition club_loop ::
  "'f env \<Rightarrow> league \<Rightarrow> (ustring \<times> ustring) list \<Rightarrow> 'f scrape_state \<Rightarrow> 'f scrape_state" where
  "club_loop env lg club_links st = foldl (process_club env lg) st club_links"

text \<open>
  One iteration of the league loop (lines 254-302). The call of
  \<open>scrape_club_links_from_league\<close> is outside every \<open>try\<close>: its exception leaves \<open>main\<close>.
\<close>

definition league_step :: "'f env \<Rightarrow> league \<Rightarrow> 'f scrape_state \<Rightarrow> exn option \<times> 'f scrape_state" where
  "league_step env lg st =
     (let st1 = st\<lparr>log := log st @ [Scraping (league_name lg)]\<rparr>
      in case scrape_club_links_from_league env (league_url lg) of
           Inl e \<Rightarrow> (Some e, st1)
         | Inr club_links \<Rightarrow>
             if club_links = [] then (None, st1\<lparr>log := log st1 @ [NoClubsFound]\<rparr>)
             else (None, club_loop env lg club_links
                           (st1\<lparr>log := log st1 @ [FoundLinks (length club_links)]\<rparr>)))"

fun league_loop :: "'f env \<Rightarrow> league list \<Rightarrow> 'f scrape_state \<Rightarrow> exn option \<times> 'f scrape_state" where
  "league_loop env [] st = (None, st)"
| "league_loop env (lg # lgs) st =
     (case league_step env lg st of
        (Some e, st') \<Rightarrow> (Some e, st')
      | (None, st') \<Rightarrow> league_loop env lgs st')"

definition main :: "'f env \<Rightarrow> league list \<Rightarrow> exn option \<times> 'f scrape_state" where
  "main env leagues = league_loop env leagues \<lparr>all_clubs = Map.empty, log = []\<rparr>"

section \<open>A small world for worked examples\<close>

text \<open>
  The reading of a plain decimal literal (optional sign, digits, optional fraction) as a
  real number. On such a literal it is the number \<open>float\<close> returns, before rounding to
  binary; it instantiates \<open>py_float\<close> in the examples. \<open>round6_real\<close> rounds to six
  decimal places.
\<close>

definition digits_val :: "ustring \<Rightarrow> nat" where
  "digits_val ds = foldl (\<lambda>n c. 10 * n + (c - 48)) 0 ds"

definition decimal_float :: "ustring \<Rightarrow> real option" where
  "decimal_float s =
     (let t = strip s;
          sgn = (case t of [] \<Rightarrow> 1 | c # r \<Rightarrow> if c = 45 then - 1 else (1::real));
          body = (case t of [] \<Rightarrow> [] | c # r \<Rightarrow> if c = 45 \<or> c = 43 then r else t);
          ip = takeWhile is_digit body;
          rest = dropWhile is_digit body
      in case rest of
           [] \<Rightarrow> if ip = [] then None else Some (sgn * real (digits_val ip))
         | c # fp \<Rightarrow>
             if c = 46 \<and> list_all is_digit fp \<and> (ip \<noteq> [] \<or> fp \<noteq> [])
             then Some (sgn * (real (digits_val ip) + real (digits_val fp) / 10 ^ length fp))
             else None)"

definition round6_real :: "real \<Rightarrow> real" where
  "round6_real x = real_of_int (round (x * 1000000)) / 1000000"

text \<open>
  Three clubs of one league page: Arsenal with a ground page carrying
  \<open>51.555; -0.108\<close>, Farland with a ground page carrying \<open>95.0; 200.0\<close>, and Down, whose
  club page answers with an HTTP error.
\<close>

definition text_cell :: "string \<Rightarrow> cell" where
  "text_cell s = \<lparr>cell_text = ustr s, cell_anchors = []\<rparr>"

definition link_cell :: "string \<Rightarrow> string \<Rightarrow> string \<Rightarrow> cell" where
  "link_cell s h t = \<lparr>cell_text = ustr s, cell_anchors = [\<lparr>href = ustr h, atext = ustr t\<rparr>]\<rparr>"

definition empty_page :: page where
  "empty_page = \<lparr>wikitables = [], infobox = None, geo = None, geo_dec = None\<rparr>"

definition league_page :: page where
  "league_page = empty_page\<lparr>wikitables :=
     [\<lparr>th_texts = [ustr ''pos'', ustr ''team'', ustr ''pld''],
       trs = [[text_cell ''pos'', text_cell ''team'', text_cell ''pld''],
              [text_cell ''1'', link_cell ''arsenal'' ''/wiki/Arsenal'' ''Arsenal'', text_cell ''38''],
              [text_cell ''2'', link_cell ''down'' ''/wiki/Down'' ''Down'', text_cell ''38''],
              [text_cell ''3'', link_cell ''farland'' ''/wiki/Farland'' ''Farland'', text_cell ''38'']]\<rparr>]\<rparr>"

definition ground_page :: "string \<Rightarrow> string \<Rightarrow> page" where
  "ground_page h t = empty_page\<lparr>infobox :=
     Some [\<lparr>row_th = Some (ustr ''full name''), row_td = Some \<lparr>td_anchor = None, td_text = ustr ''x''\<rparr>\<rparr>,
           \<lparr>row_th = Some (ustr ''ground''),
            row_td = Some \<lparr>td_anchor = Some \<lparr>href = ustr h, atext = ustr t\<rparr>, td_text = ustr t\<rparr>\<rparr>]\<rparr>"

definition example_web :: "ustring \<Rightarrow> exn + page" where
  "example_web url =
     (if url = ustr ''https://en.wikipedia.org/wiki/League'' then Inr league_page
      else if url = ustr ''https://en.wikipedia.org/wiki/Arsenal''
        then Inr (ground_page ''/wiki/Emirates'' ''Emirates Stadium'')
      else if url = ustr ''https://en.wikipedia.org/wiki/Emirates''
        then Inr (empty_page\<lparr>geo := Some (ustr ''51.555; -0.108'')\<rparr>)
      else if url = ustr ''https://en.wikipedia.org/wiki/Farland''
        then Inr (ground_page ''/wiki/Farfield'' ''Farfield'')
      else if url = ustr ''https://en.wikipedia.org/wiki/Farfield''
        then Inr (empty_page\<lparr>geo := Some (ustr ''95.0; 200.0'')\<rparr>)
      else if url = ustr ''https://en.wikipedia.org/wiki/Down'' then Inl HTTPError
      else Inl RequestError)"

definition example_env :: "real env" where
  "example_env =
     \<lparr>http_get = example_web,
      urljoin = (\<lambda>b h. b @ h),
      py_float = decimal_float,
      round6 = round6_real,
      str_lower = map lower_ascii,
      slugify = map lower_ascii\<rparr>"

definition example_league :: league where
  "example_league =
     \<lparr>league_name = ustr ''Premier League'', country = ustr ''ENG'', code = ustr ''PL'',
      tier = 1, league_url = ustr ''https://en.wikipedia.org/wiki/League''\<rparr>"

text \<open>
  Two standings tables that both link to \<open>/wiki/Arsenal_F.C.\<close>, the second under another
  link text.
\<close>

definition dup_tables :: "wikitable list" where
  "dup_tables =
     [\<lparr>th_texts = [ustr ''pos'', ustr ''team''],
       trs = [[text_cell ''pos'', text_cell ''team''],
              [text_cell ''1'', link_cell ''arsenal'' ''/wiki/Arsenal_F.C.'' ''Arsenal F.C.''],
              [text_cell ''2'', link_cell ''chelsea'' ''/wiki/Chelsea_F.C.'' ''Chelsea F.C.'']]\<rparr>,
      \<lparr>th_texts = [ustr ''pos'', ustr ''club''],
       trs = [[text_cell ''pos'', text_cell ''club''],
              [text_cell ''1'', link_cell ''everton'' ''/wiki/Everton_F.C.'' ''Everton F.C.''],
              [text_cell ''2'', link_cell ''arsenal'' ''/wiki/Arsenal_F.C.'' ''Arsenal'']]\<rparr>]"

text \<open>
  Two pools of logos, as \<open>load_logo\<close> builds them from file names: the two Arsenal files of
  the tier-ordering example, and two files that tie on token overlap for the target
  \<open>Real Madrid\<close>.
\<close>

definition arsenal_pool :: "logo list" where
  "arsenal_pool =
     [load_logo (\<lambda>s. s) (ustr ''PL'') (ustr ''arsenal_badge.png'') (ustr ''arsenal_badge''),
      load_logo (\<lambda>s. s) (ustr ''PL'') (ustr ''arsenal_retro1.png'') (ustr ''arsenal_retro1'')]"

definition tie_pool :: "logo list" where
  "tie_pool =
     [load_logo (\<lambda>s. s) (ustr ''LL'') (ustr ''madrid_blue.png'') (ustr ''madrid_blue''),
      load_logo (\<lambda>s. s) (ustr ''LL'') (ustr ''real_white.png'') (ustr ''real_white'')]"

section \<open>Specification predicates\<close>

text \<open>The characters a normalised string is made of: digits, lower-case letters, \<open>_\<close>.\<close>

definition is_clean :: "nat \<Rightarrow> bool" where
  "is_clean c = (is_digit c \<or> is_lower_ascii c \<or> c = 95)"

text \<open>
  \<open>first_best league club_tokens b logos l\<close>: \<open>l\<close> is a candidate of the league in the pool
  whose score exceeds \<open>b\<close>, every candidate of the league before it scores less, and every
  one after it scores at most as much.
\<close>

definition first_best :: "ustring \<Rightarrow> ustring set \<Rightarrow> nat \<Rightarrow> logo list \<Rightarrow> logo \<Rightarrow> bool" where
  "first_best lg ct b logos l =
     (\<exists>pre post. logos = pre @ l # post \<and> logo_league l = lg \<and> b < score ct l
        \<and> (\<forall>x\<in>set pre. logo_league x = lg \<longrightarrow> score ct x < score ct l)
        \<and> (\<forall>x\<in>set post. logo_league x = lg \<longrightarrow> score ct x \<le> score ct l))"

text \<open>
  De-duplication by link as the specification words it: keep a pair, drop every later pair
  with the same link, go on with the rest.
\<close>

fun dedupe_first :: "('a \<times> 'b) list \<Rightarrow> ('a \<times> 'b) list" where
  "dedupe_first [] = []"
| "dedupe_first (p # ps) = p # dedupe_first (filter (\<lambda>q. snd q \<noteq> snd p) ps)"

text \<open>
  \<open>marker_coords env r\<close>: the coordinates of the record \<open>r\<close> are the two numbers of the
  \<open>span.geo\<close> marker of its ground page, each rounded to six places.
\<close>

definition marker_coords :: "'f env \<Rightarrow> 'f club_record \<Rightarrow> bool" where
  "marker_coords env r =
     (\<exists>u pg t a b x y. rec_ground_wikipedia r = Some u \<and> http_get env u = Inr pg
        \<and> geo pg = Some t \<and> map strip (split_on 59 t) = [a, b]
        \<and> py_float env a = Some x \<and> py_float env b = Some y
        \<and> rec_lat r = round6 env x \<and> rec_lon r = round6 env y)"

text \<open>\<open>records_ok env st\<close>: every record of \<open>all_clubs\<close> has its coordinates from a marker.\<close>

definition records_ok :: "'f env \<Rightarrow> 'f scrape_state \<Rightarrow> bool" where
  "records_ok env st = (\<forall>k r. all_clubs st k = Some r \<longrightarrow> marker_coords env r)"

section \<open>Text Normalizer: idempotence and totality\<close>

lemmas char_eval = ustr_def is_space_def is_ascii_def is_digit_def is_upper_ascii_def
  is_lower_ascii_def is_alnum_ascii_def is_word_ascii_def lower_ascii_def

lemmas norm_eval = char_eval normalise_def strip_by_def

lemmas match_eval = norm_eval tokens_def STOPWORDS_def load_logo_def score_def Let_def

lemma set_collapse_ws: "set (collapse_ws s) \<subseteq> insert 95 {c \<in> set s. \<not> is_space c}"
proof (induction s rule: collapse_ws.induct)
  case 1
  then show ?case by simp
next
  case (2 c cs)
  have "set (dropWhile is_space cs) \<subseteq> set cs"
    using set_dropWhileD by fastforce
  with 2 show ?case by (auto split: if_splits)
qed

lemma collapse_ws_id: "\<forall>c\<in>set s. \<not> is_space c \<Longrightarrow> collapse_ws s = s"
  by (induction s) auto

lemma strip_by_all:
  assumes "\<forall>c\<in>set s. P c"
  shows "strip_by P s = []"
proof -
  have d: "dropWhile P s = []" using assms by (induction s) auto
  show ?thesis unfolding strip_by_def d by simp
qed

lemma set_strip_by: "set (strip_by P s) \<subseteq> set s"
  unfolding strip_by_def
  by (metis set_dropWhileD set_rev subsetI)

lemma strip_by_idem: "strip_by P (strip_by P s) = strip_by P s"
proof -
  define a where "a = dropWhile P s"
  define r where "r = rev (dropWhile P (rev a))"
  have "dropWhile P r = r"
  proof (cases "r = []")
    case True
    then show ?thesis by simp
  next
    case False
    then have an: "a \<noteq> []" by (auto simp: r_def)
    then have "\<not> P (hd a)" unfolding a_def by (rule hd_dropWhile)
    then show ?thesis
      by (metis (no_types, lifting) Nil_is_rev_conv dropWhile_eq_self_iff hd_rev
          last_appendR last_rev r_def takeWhile_dropWhile_id)
  qed
  then show ?thesis unfolding strip_by_def a_def[symmetric] r_def[symmetric]
    by (simp add: r_def)
qed

lemma is_clean_props:
  "is_clean c \<Longrightarrow> is_ascii c \<and> lower_ascii c = c \<and> is_word_ascii c \<and> \<not> is_space c"
  by (auto simp: is_clean_def is_ascii_def lower_ascii_def is_word_ascii_def is_space_def
      is_alnum_ascii_def is_digit_def is_lower_ascii_def is_upper_ascii_def)

lemma lower_clean:
  "is_ascii c \<Longrightarrow> is_word_ascii (lower_ascii c) \<Longrightarrow> \<not> is_space (lower_ascii c)
     \<Longrightarrow> is_clean (lower_ascii c)"
  by (auto simp: is_clean_def is_ascii_def lower_ascii_def is_word_ascii_def is_space_def
      is_alnum_ascii_def is_digit_def is_lower_ascii_def is_upper_ascii_def split: if_splits)

lemma normalise_unfold:
  "normalise nfkd x = strip_by (\<lambda>c. c = 95) (collapse_ws
     (filter (\<lambda>c. is_word_ascii c \<or> is_space c) (map lower_ascii (filter is_ascii (nfkd x)))))"
  by (simp add: normalise_def)

lemma normalise_clean:
  assumes "c \<in> set (normalise nfkd x)"
  shows "is_clean c"
proof -
  define t4 where
    "t4 = filter (\<lambda>c. is_word_ascii c \<or> is_space c) (map lower_ascii (filter is_ascii (nfkd x)))"
  have n: "normalise nfkd x = strip_by (\<lambda>c. c = 95) (collapse_ws t4)"
    by (simp add: normalise_unfold t4_def)
  from assms have "c \<in> set (collapse_ws t4)" using set_strip_by n by fastforce
  then have "c = 95 \<or> (c \<in> set t4 \<and> \<not> is_space c)" using set_collapse_ws by fastforce
  then show ?thesis
  proof
    assume "c = 95"
    then show ?thesis by (simp add: is_clean_def)
  next
    assume h: "c \<in> set t4 \<and> \<not> is_space c"
    then obtain d where "is_ascii d" "c = lower_ascii d" "is_word_ascii c"
      by (auto simp: t4_def)
    with h show ?thesis using lower_clean by blast
  qed
qed

lemma normalise_idem:
  assumes "\<forall>s. (\<forall>c\<in>set s. is_ascii c) \<longrightarrow> nfkd s = s"
  shows "normalise nfkd (normalise nfkd x) = normalise nfkd x"
proof -
  define y where "y = normalise nfkd x"
  have cl: "\<forall>c\<in>set y. is_clean c" using normalise_clean y_def by blast
  then have a: "nfkd y = y" using assms is_clean_props by blast
  have b: "filter is_ascii y = y" using cl is_clean_props by (simp add: filter_id_conv)
  have c: "map lower_ascii y = y" using cl is_clean_props by (simp add: map_idI)
  have d: "filter (\<lambda>c. is_word_ascii c \<or> is_space c) y = y"
    using cl is_clean_props by (simp add: filter_id_conv)
  have e: "collapse_ws y = y" using cl is_clean_props collapse_ws_id by blast
  obtain t where t: "y = strip_by (\<lambda>c. c = 95) t" by (simp add: y_def normalise_def)
  have f: "strip_by (\<lambda>c. c = 95) y = y" unfolding t by (rule strip_by_idem)
  have "normalise nfkd y = y"
    by (simp add: normalise_unfold[of nfkd y] a b c d e f)
  then show ?thesis by (simp add: y_def)
qed

lemma normalise_punct:
  assumes "\<forall>c\<in>set (nfkd x). is_ascii c \<longrightarrow> \<not> is_alnum_ascii c"
  shows "normalise nfkd x = []"
proof -
  define t4 where
    "t4 = filter (\<lambda>c. is_word_ascii c \<or> is_space c) (map lower_ascii (filter is_ascii (nfkd x)))"
  have n: "normalise nfkd x = strip_by (\<lambda>c. c = 95) (collapse_ws t4)"
    by (simp add: normalise_unfold t4_def)
  have "\<forall>c\<in>set t4. c = 95 \<or> is_space c"
    using assms
    by (auto simp: t4_def is_word_ascii_def lower_ascii_def is_alnum_ascii_def is_digit_def
        is_lower_ascii_def is_upper_ascii_def is_ascii_def split: if_splits)
  then have "\<forall>c\<in>set (collapse_ws t4). c = 95" using set_collapse_ws by fastforce
  then show ?thesis unfolding n by (rule strip_by_all)
qed

text \<open>
  C3. \<open>normalise\<close> is a total function. Whenever NFKD leaves ASCII-only strings as they
  are (which Unicode guarantees), \<open>normalise (normalise x) = normalise x\<close> for every string
  \<open>x\<close>. An input whose NFKD form has no ASCII letter or digit (the empty string, white
  space only, punctuation only) is normalised to the empty string.
\<close>

theorem normalise_idempotent_total:
  "((\<forall>s. (\<forall>c\<in>set s. is_ascii c) \<longrightarrow> nfkd s = s)
      \<longrightarrow> normalise nfkd (normalise nfkd x) = normalise nfkd x)
   \<and> ((\<forall>c\<in>set (nfkd x). is_ascii c \<longrightarrow> \<not> is_alnum_ascii c) \<longrightarrow> normalise nfkd x = [])"
  using normalise_idem normalise_punct by blast

theorem normalise_idempotent_total_witness:
  "normalise (\<lambda>s. s) (normalise (\<lambda>s. s) (ustr ''St. Mirren F.C.''))
     = normalise (\<lambda>s. s) (ustr ''St. Mirren F.C.'')
   \<and> normalise (\<lambda>s. s) (ustr ''St. Mirren F.C.'') = ustr ''st_mirren_fc''
   \<and> normalise (\<lambda>s. s) (ustr ''?! _'') = []
   \<and> normalise (\<lambda>s. s) [] = []"
proof -
  have h1: "\<forall>s. (\<forall>c\<in>set s. is_ascii c) \<longrightarrow> (\<lambda>s::ustring. s) s = s" by simp
  have h2: "\<forall>c\<in>set ((\<lambda>s. s) (ustr ''?! _'')). is_ascii c \<longrightarrow> \<not> is_alnum_ascii c"
    by (simp add: char_eval)
  have h3: "\<forall>c\<in>set ((\<lambda>s::ustring. s) []). is_ascii c \<longrightarrow> \<not> is_alnum_ascii c" by simp
  have v: "normalise (\<lambda>s. s) (ustr ''St. Mirren F.C.'') = ustr ''st_mirren_fc''"
    by (simp add: norm_eval)
  show ?thesis
    using normalise_idempotent_total[of "\<lambda>s. s" "ustr ''St. Mirren F.C.''"]
      normalise_idempotent_total[of "\<lambda>s. s" "ustr ''?! _''"]
      normalise_idempotent_total[of "\<lambda>s. s" "[]"] h1 h2 h3 v
    by blast
qed


section \<open>Fuzzy Entity Matcher: tier order\<close>

lemma exact_loop_find:
  "exact_loop logos lg cn None = find (\<lambda>l. logo_league l = lg \<and> logo_stem l = cn) logos"
  by (induction logos) auto

lemma containment_loop_find:
  "containment_loop logos lg cn None
     = find (\<lambda>l. logo_league l = lg \<and> contains (logo_stem l) cn) logos"
  by (induction logos) auto

lemma base_loop_find:
  "base_loop logos lg base None
     = (if base = [] then None
        else find (\<lambda>l. logo_league l = lg \<and> contains (logo_stem l) base) logos)"
  by (induction logos) auto

lemma fold_max_ge: "(b::nat) \<le> fold max xs b"
proof (induction xs arbitrary: b)
  case Nil
  show ?case by simp
next
  case (Cons x xs)
  have "b \<le> max x b" by simp
  also have "\<dots> \<le> fold max xs (max x b)" by (rule Cons.IH)
  finally show ?case by simp
qed

lemma overlap_loop_fold:
  "overlap_loop logos lg ct (best, bs) =
     (let cands = filter (\<lambda>l. logo_league l = lg) logos;
          m = fold max (map (score ct) cands) bs
      in (if bs < m then find (\<lambda>l. score ct l = m) cands else best, m))"
proof (induction logos arbitrary: best bs)
  case Nil
  show ?case by simp
next
  case (Cons l ls)
  show ?case
  proof (cases "logo_league l = lg")
    case False
    then show ?thesis using Cons.IH[of best bs] by simp
  next
    case lg: True
    show ?thesis
    proof (cases "bs < score ct l")
      case True
      then have mx: "max (score ct l) bs = score ct l" by simp
      have ge: "score ct l
          \<le> fold max (map (score ct) (filter (\<lambda>l. logo_league l = lg) ls)) (score ct l)"
        by (rule fold_max_ge)
      show ?thesis using lg True ge Cons.IH[of "Some l" "score ct l"]
        by (auto simp: Let_def mx)
    next
      case False
      then have mx: "max (score ct l) bs = bs" by simp
      show ?thesis using lg False Cons.IH[of best bs]
        by (auto simp: Let_def mx)
    qed
  qed
qed

lemma overlap_tier_spec:
  "fst (overlap_tier logos lg (set (tokens nfkd name)) (None, 0))
     = tier_overlap nfkd logos name lg"
  by (simp add: overlap_tier_def tier_overlap_def overlap_loop_fold Let_def)

text \<open>
  C1. For every target name, league and pool, the value of \<open>best\<close> the matching block
  leaves is the result of the first of the four tiers, taken in the order exact stem
  equality, containment of the normalised name, containment of the joined tokens (only
  when that string is non-empty), token overlap, that yields a candidate of the league; a
  later tier decides only when every earlier one yields none, and when all four yield none
  the result is \<open>None\<close>.
\<close>

theorem match_club_tiers:
  "match_club nfkd logos name league = resolve nfkd logos name league"
  unfolding match_club_def resolve_def Let_def
  by (simp add: exact_loop_find containment_loop_find base_loop_find overlap_tier_spec
      tier_exact_def tier_containment_def tier_base_def Let_def split: option.splits)

theorem match_club_tiers_witness:
  "tier_exact (\<lambda>s. s) arsenal_pool (ustr ''Arsenal'') (ustr ''PL'') = None
   \<and> tier_containment (\<lambda>s. s) arsenal_pool (ustr ''Arsenal'') (ustr ''PL'')
       = Some (arsenal_pool ! 0)
   \<and> match_club (\<lambda>s. s) arsenal_pool (ustr ''Arsenal'') (ustr ''PL'') = Some (arsenal_pool ! 0)
   \<and> match_club (\<lambda>s. s) arsenal_pool (ustr ''Chelsea'') (ustr ''PL'') = None"
proof -
  have e1: "tier_exact (\<lambda>s. s) arsenal_pool (ustr ''Arsenal'') (ustr ''PL'') = None"
    by (simp add: tier_exact_def tier_containment_def tier_base_def tier_overlap_def
        arsenal_pool_def match_eval)
  have e2: "tier_containment (\<lambda>s. s) arsenal_pool (ustr ''Arsenal'') (ustr ''PL'')
      = Some (arsenal_pool ! 0)"
    by (simp add: tier_exact_def tier_containment_def tier_base_def tier_overlap_def
        arsenal_pool_def match_eval)
  have f1: "tier_exact (\<lambda>s. s) arsenal_pool (ustr ''Chelsea'') (ustr ''PL'') = None"
    by (simp add: tier_exact_def tier_containment_def tier_base_def tier_overlap_def
        arsenal_pool_def match_eval)
  have f2: "tier_containment (\<lambda>s. s) arsenal_pool (ustr ''Chelsea'') (ustr ''PL'') = None"
    by (simp add: tier_exact_def tier_containment_def tier_base_def tier_overlap_def
        arsenal_pool_def match_eval)
  have f3: "tier_base (\<lambda>s. s) arsenal_pool (ustr ''Chelsea'') (ustr ''PL'') = None"
    by (simp add: tier_exact_def tier_containment_def tier_base_def tier_overlap_def
        arsenal_pool_def match_eval)
  have f4: "tier_overlap (\<lambda>s. s) arsenal_pool (ustr ''Chelsea'') (ustr ''PL'') = None"
    by (simp add: tier_exact_def tier_containment_def tier_base_def tier_overlap_def
        arsenal_pool_def match_eval)
  show ?thesis
    using match_club_tiers[of "\<lambda>s. s" arsenal_pool "ustr ''Arsenal''" "ustr ''PL''"]
      match_club_tiers[of "\<lambda>s. s" arsenal_pool "ustr ''Chelsea''" "ustr ''PL''"]
      e1 e2 f1 f2 f3 f4
    by (simp add: resolve_def)
qed


section \<open>Fuzzy Entity Matcher: the token-overlap tier\<close>

lemma first_best_unique:
  assumes "first_best lg ct bs logos l" and "first_best lg ct bs logos l'"
  shows "l = l'"
proof -
  from assms(1) obtain pre post where a: "logos = pre @ l # post" "logo_league l = lg"
    "\<forall>x\<in>set pre. logo_league x = lg \<longrightarrow> score ct x < score ct l"
    "\<forall>x\<in>set post. logo_league x = lg \<longrightarrow> score ct x \<le> score ct l"
    unfolding first_best_def by blast
  from assms(2) obtain pre' post' where b: "logos = pre' @ l' # post'" "logo_league l' = lg"
    "\<forall>x\<in>set pre'. logo_league x = lg \<longrightarrow> score ct x < score ct l'"
    "\<forall>x\<in>set post'. logo_league x = lg \<longrightarrow> score ct x \<le> score ct l'"
    unfolding first_best_def by blast
  have eq: "pre @ l # post = pre' @ l' # post'" using a(1) b(1) by simp
  show ?thesis
  proof (rule ccontr)
    assume ne: "l \<noteq> l'"
    from eq consider us where "pre = pre' @ us" "us @ l # post = l' # post'"
      | us where "pre @ us = pre'" "l # post = us @ l' # post'"
      by (auto simp: append_eq_append_conv2)
    then show False
    proof cases
      case 1
      with ne obtain vs where "us = l' # vs" by (cases us) auto
      with 1 have "l' \<in> set pre" "l \<in> set post'" by auto
      with a b show False by fastforce
    next
      case 2
      with ne obtain vs where "us = l # vs" by (cases us) auto
      with 2 have "l \<in> set pre'" "l' \<in> set post" by auto
      with a b show False by fastforce
    qed
  qed
qed

lemma overlap_loop_first_best:
  "overlap_loop logos lg ct (best, bs) = (b', s') \<Longrightarrow>
     (b' = best \<and> s' = bs \<and> (\<forall>x\<in>set logos. logo_league x = lg \<longrightarrow> score ct x \<le> bs))
     \<or> (\<exists>l. b' = Some l \<and> s' = score ct l \<and> first_best lg ct bs logos l)"
proof (induction logos arbitrary: best bs)
  case Nil
  then show ?case by simp
next
  case (Cons a ls)
  show ?case
  proof (cases "logo_league a = lg \<and> bs < score ct a")
    case False
    then have "overlap_loop ls lg ct (best, bs) = (b', s')"
      using Cons.prems by (auto split: if_splits)
    from Cons.IH[OF this] show ?thesis
    proof
      assume "b' = best \<and> s' = bs \<and> (\<forall>x\<in>set ls. logo_league x = lg \<longrightarrow> score ct x \<le> bs)"
      then show ?thesis using False by auto
    next
      assume "\<exists>l. b' = Some l \<and> s' = score ct l \<and> first_best lg ct bs ls l"
      then obtain l pre post where l: "b' = Some l" "s' = score ct l" "ls = pre @ l # post"
        "logo_league l = lg" "bs < score ct l"
        "\<forall>x\<in>set pre. logo_league x = lg \<longrightarrow> score ct x < score ct l"
        "\<forall>x\<in>set post. logo_league x = lg \<longrightarrow> score ct x \<le> score ct l"
        unfolding first_best_def by blast
      have "a # ls = (a # pre) @ l # post" using l(3) by simp
      moreover have "\<forall>x\<in>set (a # pre). logo_league x = lg \<longrightarrow> score ct x < score ct l"
        using l(5,6) False by auto
      ultimately have "first_best lg ct bs (a # ls) l"
        unfolding first_best_def using l(4,5,7) by blast
      then show ?thesis using l(1,2) by blast
    qed
  next
    case True
    then have "overlap_loop ls lg ct (Some a, score ct a) = (b', s')"
      using Cons.prems by (auto split: if_splits)
    from Cons.IH[OF this] show ?thesis
    proof
      assume h: "b' = Some a \<and> s' = score ct a
                 \<and> (\<forall>x\<in>set ls. logo_league x = lg \<longrightarrow> score ct x \<le> score ct a)"
      have "a # ls = [] @ a # ls" by simp
      then have "first_best lg ct bs (a # ls) a"
        unfolding first_best_def using True h by fastforce
      then show ?thesis using h by blast
    next
      assume "\<exists>l. b' = Some l \<and> s' = score ct l \<and> first_best lg ct (score ct a) ls l"
      then obtain l pre post where l: "b' = Some l" "s' = score ct l" "ls = pre @ l # post"
        "logo_league l = lg" "score ct a < score ct l"
        "\<forall>x\<in>set pre. logo_league x = lg \<longrightarrow> score ct x < score ct l"
        "\<forall>x\<in>set post. logo_league x = lg \<longrightarrow> score ct x \<le> score ct l"
        unfolding first_best_def by blast
      have "a # ls = (a # pre) @ l # post" using l(3) by simp
      moreover have "\<forall>x\<in>set (a # pre). logo_league x = lg \<longrightarrow> score ct x < score ct l"
        using l(5,6) by auto
      moreover have "bs < score ct l" using True l(5) by simp
      ultimately have "first_best lg ct bs (a # ls) l"
        unfolding first_best_def using l(4,7) by blast
      then show ?thesis using l(1,2) by blast
    qed
  qed
qed

lemma overlap_tier_Some_iff:
  "fst (overlap_tier logos lg ct (None, 0)) = Some l \<longleftrightarrow> first_best lg ct 0 logos l"
proof -
  obtain b s where r: "overlap_loop logos lg ct (None, 0) = (b, s)" by fastforce
  from overlap_loop_first_best[OF r]
  consider "b = None" "s = 0" "\<forall>x\<in>set logos. logo_league x = lg \<longrightarrow> score ct x \<le> 0"
    | k where "b = Some k" "s = score ct k" "first_best lg ct 0 logos k"
    by blast
  then show ?thesis
  proof cases
    case 1
    have "\<not> first_best lg ct 0 logos l"
      unfolding first_best_def using 1(3) by fastforce
    then show ?thesis using r 1 by (simp add: overlap_tier_def)
  next
    case 2
    then have "0 < score ct k" unfolding first_best_def by blast
    then have "fst (overlap_tier logos lg ct (None, 0)) = Some k"
      using r 2 by (simp add: overlap_tier_def)
    then show ?thesis using 2(3) first_best_unique by auto
  qed
qed

lemma overlap_tier_None_iff:
  "fst (overlap_tier logos lg ct (None, 0)) = None
     \<longleftrightarrow> (\<forall>x\<in>set logos. logo_league x = lg \<longrightarrow> score ct x = 0)"
proof -
  obtain b s where r: "overlap_loop logos lg ct (None, 0) = (b, s)" by fastforce
  from overlap_loop_first_best[OF r]
  consider "b = None" "s = 0" "\<forall>x\<in>set logos. logo_league x = lg \<longrightarrow> score ct x \<le> 0"
    | k where "b = Some k" "s = score ct k" "first_best lg ct 0 logos k"
    by blast
  then show ?thesis
  proof cases
    case 1
    then show ?thesis using r by (simp add: overlap_tier_def)
  next
    case 2
    then have k: "0 < score ct k" "k \<in> set logos" "logo_league k = lg"
      unfolding first_best_def by auto
    then have "fst (overlap_tier logos lg ct (None, 0)) = Some k"
      using r 2 by (simp add: overlap_tier_def)
    then show ?thesis using k by fastforce
  qed
qed

text \<open>
  C6. In the token-overlap tier (entered with no match and best score 0) the result is a
  candidate \<open>l\<close> exactly when \<open>l\<close> stands in the pool at a position where it is of the
  target's league, its token intersection with the target has at least one element, every
  candidate of the league before it has a strictly smaller intersection and every one after
  it has at most as large a one: the earliest candidate of maximal overlap. The result is
  none exactly when every candidate of the league has an empty intersection.
\<close>

theorem overlap_tier_first_max:
  "(fst (overlap_tier logos league club_tokens (None, 0)) = Some l
      \<longleftrightarrow> first_best league club_tokens 0 logos l)
   \<and> (fst (overlap_tier logos league club_tokens (None, 0)) = None
      \<longleftrightarrow> (\<forall>x\<in>set logos. logo_league x = league \<longrightarrow> score club_tokens x = 0))"
  using overlap_tier_Some_iff overlap_tier_None_iff by blast

theorem overlap_tier_first_max_witness:
  "score (set (tokens (\<lambda>s. s) (ustr ''Real Madrid''))) (tie_pool ! 0) = 1
   \<and> score (set (tokens (\<lambda>s. s) (ustr ''Real Madrid''))) (tie_pool ! 1) = 1
   \<and> match_club (\<lambda>s. s) tie_pool (ustr ''Real Madrid'') (ustr ''LL'') = Some (tie_pool ! 0)
   \<and> first_best (ustr ''LL'') (set (tokens (\<lambda>s. s) (ustr ''Real Madrid''))) 0 tie_pool
       (tie_pool ! 0)
   \<and> \<not> first_best (ustr ''LL'') (set (tokens (\<lambda>s. s) (ustr ''Real Madrid''))) 0 tie_pool
       (tie_pool ! 1)
   \<and> fst (overlap_tier tie_pool (ustr ''PL'') (set (tokens (\<lambda>s. s) (ustr ''Real Madrid'')))
       (None, 0)) = None"
proof -
  let ?ct = "set (tokens (\<lambda>s. s) (ustr ''Real Madrid''))"
  have s0: "score ?ct (tie_pool ! 0) = 1"
    by (simp add: tie_pool_def match_eval)
  have s1: "score ?ct (tie_pool ! 1) = 1"
    by (simp add: tie_pool_def match_eval)
  have t: "fst (overlap_tier tie_pool (ustr ''LL'') ?ct (None, 0)) = Some (tie_pool ! 0)"
    by (simp add: overlap_tier_def tie_pool_def match_eval)
  have m: "match_club (\<lambda>s. s) tie_pool (ustr ''Real Madrid'') (ustr ''LL'')
      = Some (tie_pool ! 0)"
    by (simp add: match_club_def overlap_tier_def tie_pool_def match_eval)
  have ne: "tie_pool ! 1 \<noteq> tie_pool ! 0"
    by (simp add: tie_pool_def match_eval)
  have p: "\<forall>x\<in>set tie_pool. logo_league x = ustr ''PL'' \<longrightarrow> score ?ct x = 0"
    by (simp add: tie_pool_def match_eval)
  show ?thesis
    using overlap_tier_first_max[of tie_pool "ustr ''LL''" ?ct "tie_pool ! 0"]
      overlap_tier_first_max[of tie_pool "ustr ''LL''" ?ct "tie_pool ! 1"]
      overlap_tier_first_max[of tie_pool "ustr ''PL''" ?ct "tie_pool ! 0"]
      s0 s1 t m ne p
    by simp
qed


section \<open>Fuzzy Entity Matcher: entries without a name or a league\<close>

lemma club_step_length: "length (out_clubs (club_step nfkd logos st c)) = Suc (length (out_clubs st))"
  by (simp add: club_step_def split: option.splits)

lemma club_step_prefix:
  "i < length (out_clubs st) \<Longrightarrow> out_clubs (club_step nfkd logos st c) ! i = out_clubs st ! i"
  by (simp add: club_step_def nth_append split: option.splits)

lemma club_step_counts:
  "matched (club_step nfkd logos st c) + missing (club_step nfkd logos st c)
     = matched st + missing st + (if truthy (entry_name c) \<and> truthy (entry_league c) then 1 else 0)"
  by (simp add: club_step_def split: option.splits)

lemma club_step_skip:
  "\<not> truthy (entry_name c) \<or> \<not> truthy (entry_league c) \<Longrightarrow>
     club_step nfkd logos st c = st\<lparr>out_clubs := out_clubs st @ [c]\<rparr>"
  by (auto simp: club_step_def)

lemma foldl_club_step_length:
  "length (out_clubs (foldl (club_step nfkd logos) st cs)) = length (out_clubs st) + length cs"
  by (induction cs arbitrary: st) (simp_all add: club_step_length)

lemma foldl_club_step_prefix:
  "i < length (out_clubs st) \<Longrightarrow>
     out_clubs (foldl (club_step nfkd logos) st cs) ! i = out_clubs st ! i"
proof (induction cs arbitrary: st)
  case Nil
  then show ?case by simp
next
  case (Cons c cs)
  have "i < length (out_clubs (club_step nfkd logos st c))"
    using Cons.prems by (simp add: club_step_length)
  from Cons.IH[OF this] show ?case
    using Cons.prems by (simp add: club_step_prefix)
qed

lemma foldl_club_step_counts:
  "matched (foldl (club_step nfkd logos) st cs) + missing (foldl (club_step nfkd logos) st cs)
     = matched st + missing st
       + length (filter (\<lambda>c. truthy (entry_name c) \<and> truthy (entry_league c)) cs)"
  by (induction cs arbitrary: st) (simp_all add: club_step_counts)

lemma foldl_club_step_skip:
  assumes "i < length cs"
    and "\<not> truthy (entry_name (cs ! i)) \<or> \<not> truthy (entry_league (cs ! i))"
  shows "out_clubs (foldl (club_step nfkd logos) st cs) ! (length (out_clubs st) + i) = cs ! i"
  using assms
proof (induction cs arbitrary: st i)
  case Nil
  then show ?case by simp
next
  case (Cons c cs)
  show ?case
  proof (cases i)
    case 0
    have "out_clubs (foldl (club_step nfkd logos) (club_step nfkd logos st c) cs)
            ! length (out_clubs st)
          = out_clubs (club_step nfkd logos st c) ! length (out_clubs st)"
      by (rule foldl_club_step_prefix) (simp add: club_step_length)
    also have "\<dots> = c"
      using Cons.prems(2) 0 by (simp add: club_step_skip)
    finally show ?thesis using 0 by simp
  next
    case (Suc j)
    have "out_clubs (foldl (club_step nfkd logos) (club_step nfkd logos st c) cs)
            ! (length (out_clubs (club_step nfkd logos st c)) + j) = cs ! j"
      using Cons.prems Suc by (intro Cons.IH) simp_all
    then show ?thesis using Suc by (simp add: club_step_length)
  qed
qed

text \<open>
  C10. An entry whose name or league is missing or empty is skipped: the step copies it to
  the output as it is and changes neither counter, whatever the pool of logos is (no match
  is attempted). Over the whole run the output has one entry for each input entry, a skipped
  entry stands unchanged at its own position, and the two counters together count exactly
  the entries that have both a name and a league.
\<close>

theorem skipped_entry_untouched:
  assumes "i < length clubs"
    and "\<not> truthy (entry_name (clubs ! i)) \<or> \<not> truthy (entry_league (clubs ! i))"
  shows "club_step nfkd logos st (clubs ! i) = st\<lparr>out_clubs := out_clubs st @ [clubs ! i]\<rparr>
    \<and> length (out_clubs (assign_logos nfkd logos clubs)) = length clubs
    \<and> out_clubs (assign_logos nfkd logos clubs) ! i = clubs ! i
    \<and> matched (assign_logos nfkd logos clubs) + missing (assign_logos nfkd logos clubs)
        = length (filter (\<lambda>c. truthy (entry_name c) \<and> truthy (entry_league c)) clubs)"
proof -
  let ?st0 = "\<lparr>out_clubs = [], matched = 0, missing = 0\<rparr>"
  have a: "club_step nfkd logos st (clubs ! i) = st\<lparr>out_clubs := out_clubs st @ [clubs ! i]\<rparr>"
    using assms(2) by (rule club_step_skip)
  have b: "length (out_clubs (assign_logos nfkd logos clubs)) = length clubs"
    by (simp add: assign_logos_def foldl_club_step_length)
  have c: "out_clubs (assign_logos nfkd logos clubs) ! i = clubs ! i"
    using foldl_club_step_skip[OF assms, of nfkd logos ?st0] by (simp add: assign_logos_def)
  have d: "matched (assign_logos nfkd logos clubs) + missing (assign_logos nfkd logos clubs)
        = length (filter (\<lambda>c. truthy (entry_name c) \<and> truthy (entry_league c)) clubs)"
    using foldl_club_step_counts[of nfkd logos ?st0 clubs] by (simp add: assign_logos_def)
  show ?thesis using a b c d by blast
qed

theorem skipped_entry_untouched_witness:
  "out_clubs (assign_logos (\<lambda>s. s) arsenal_pool
      [\<lparr>entry_name = Some (ustr ''Arsenal''), entry_league = Some (ustr ''PL''), entry_logo = None\<rparr>,
       \<lparr>entry_name = Some [], entry_league = Some (ustr ''PL''), entry_logo = None\<rparr>,
       \<lparr>entry_name = Some (ustr ''Arsenal''), entry_league = None, entry_logo = None\<rparr>]) ! 1
     = \<lparr>entry_name = Some [], entry_league = Some (ustr ''PL''), entry_logo = None\<rparr>
   \<and> out_clubs (assign_logos (\<lambda>s. s) arsenal_pool
      [\<lparr>entry_name = Some (ustr ''Arsenal''), entry_league = Some (ustr ''PL''), entry_logo = None\<rparr>,
       \<lparr>entry_name = Some [], entry_league = Some (ustr ''PL''), entry_logo = None\<rparr>,
       \<lparr>entry_name = Some (ustr ''Arsenal''), entry_league = None, entry_logo = None\<rparr>]) ! 2
     = \<lparr>entry_name = Some (ustr ''Arsenal''), entry_league = None, entry_logo = None\<rparr>
   \<and> matched (assign_logos (\<lambda>s. s) arsenal_pool
      [\<lparr>entry_name = Some (ustr ''Arsenal''), entry_league = Some (ustr ''PL''), entry_logo = None\<rparr>,
       \<lparr>entry_name = Some [], entry_league = Some (ustr ''PL''), entry_logo = None\<rparr>,
       \<lparr>entry_name = Some (ustr ''Arsenal''), entry_league = None, entry_logo = None\<rparr>])
     + missing (assign_logos (\<lambda>s. s) arsenal_pool
      [\<lparr>entry_name = Some (ustr ''Arsenal''), entry_league = Some (ustr ''PL''), entry_logo = None\<rparr>,
       \<lparr>entry_name = Some [], entry_league = Some (ustr ''PL''), entry_logo = None\<rparr>,
       \<lparr>entry_name = Some (ustr ''Arsenal''), entry_league = None, entry_logo = None\<rparr>]) = 1"
proof -
  let ?cs = "[\<lparr>entry_name = Some (ustr ''Arsenal''), entry_league = Some (ustr ''PL''), entry_logo = None\<rparr>,
       \<lparr>entry_name = Some [], entry_league = Some (ustr ''PL''), entry_logo = None\<rparr>,
       \<lparr>entry_name = Some (ustr ''Arsenal''), entry_league = None, entry_logo = None\<rparr>]"
  have h1: "(1::nat) < length ?cs" by simp
  have h2: "(2::nat) < length ?cs" by simp
  have g1: "\<not> truthy (entry_name (?cs ! 1)) \<or> \<not> truthy (entry_league (?cs ! 1))"
    by (simp add: truthy_def)
  have g2: "\<not> truthy (entry_name (?cs ! 2)) \<or> \<not> truthy (entry_league (?cs ! 2))"
    by (simp add: truthy_def)
  show ?thesis
    using skipped_entry_untouched[OF h1 g1, of "\<lambda>s. s" arsenal_pool "\<lparr>out_clubs = [], matched = 0, missing = 0\<rparr>"]
      skipped_entry_untouched[OF h2 g2, of "\<lambda>s. s" arsenal_pool "\<lparr>out_clubs = [], matched = 0, missing = 0\<rparr>"]
    by (simp add: truthy_def ustr_def)
qed

section \<open>Fuzzy Entity Matcher: a target whose normal form is empty\<close>

text \<open>
  C7. The containment tier (line 81) tests \<open>club_norm in l["stem"]\<close> with no guard for an
  empty \<open>club_norm\<close>, and the empty string is a substring of every stem; the base tier
  (line 89) has the guard \<open>base and\<close>. So a target whose normal form is empty is matched to
  the first logo of its league: the name \<open>!!!\<close>, and a name in Cyrillic letters
  (code points 1044, 1080, 1085, 1072, 1084, 1086), of which NFKD changes nothing and the
  ASCII encoding keeps nothing.
\<close>

theorem empty_key_matches_first_logo:
  "normalise (\<lambda>s. s) (ustr ''!!!'') = []
   \<and> match_club (\<lambda>s. s) arsenal_pool (ustr ''!!!'') (ustr ''PL'') = Some (arsenal_pool ! 0)
   \<and> normalise (\<lambda>s. s) [1044, 1080, 1085, 1072, 1084, 1086] = []
   \<and> match_club (\<lambda>s. s) arsenal_pool [1044, 1080, 1085, 1072, 1084, 1086] (ustr ''PL'')
       = Some (arsenal_pool ! 0)
   \<and> logo_path (arsenal_pool ! 0) = ustr ''club_logos_by_league/PL/arsenal_badge.png''"
proof -
  have a: "normalise (\<lambda>s. s) (ustr ''!!!'') = []"
    by (simp add: norm_eval)
  have b: "match_club (\<lambda>s. s) arsenal_pool (ustr ''!!!'') (ustr ''PL'') = Some (arsenal_pool ! 0)"
    by (simp add: match_club_def arsenal_pool_def match_eval)
  have c: "normalise (\<lambda>s. s) [1044, 1080, 1085, 1072, 1084, 1086] = []"
    by (simp add: norm_eval)
  have d: "match_club (\<lambda>s. s) arsenal_pool [1044, 1080, 1085, 1072, 1084, 1086] (ustr ''PL'')
       = Some (arsenal_pool ! 0)"
    by (simp add: match_club_def arsenal_pool_def match_eval)
  have e: "logo_path (arsenal_pool ! 0) = ustr ''club_logos_by_league/PL/arsenal_badge.png''"
    by (simp add: arsenal_pool_def match_eval)
  show ?thesis using a b c d e by blast
qed


section \<open>Document Table Extractor: de-duplication by link\<close>

lemma dedupe_loop_spec:
  "dedupe_loop cands seen out = out @ dedupe_first (filter (\<lambda>q. snd q \<notin> seen) cands)"
proof (induction cands arbitrary: seen out)
  case Nil
  then show ?case by simp
next
  case (Cons p rest)
  obtain name url where p: "p = (name, url)" by (cases p)
  show ?case
    using Cons.IH[of seen out] Cons.IH[of "insert url seen" "out @ [(name, url)]"]
    by (simp add: p conj_commute)
qed

lemma dedupe_first_links: "snd ` set (dedupe_first xs) = snd ` set xs"
proof (induction xs rule: dedupe_first.induct)
  case 1
  then show ?case by simp
next
  case (2 p ps)
  have "snd ` set (filter (\<lambda>q. snd q \<noteq> snd p) ps) = snd ` set ps - {snd p}"
    by auto
  with 2 show ?case by auto
qed

lemma dedupe_first_distinct: "distinct (map snd (dedupe_first xs))"
proof (induction xs rule: dedupe_first.induct)
  case 1
  then show ?case by simp
next
  case (2 p ps)
  have "snd p \<notin> snd ` set (filter (\<lambda>q. snd q \<noteq> snd p) ps)"
    by auto
  then have "snd p \<notin> snd ` set (dedupe_first (filter (\<lambda>q. snd q \<noteq> snd p) ps))"
    unfolding dedupe_first_links .
  with 2 show ?case by simp
qed

lemma dedupe_first_subseq: "subseq (dedupe_first xs) xs"
proof (induction xs rule: dedupe_first.induct)
  case 1
  then show ?case by simp
next
  case (2 p ps)
  have "subseq (filter (\<lambda>q. snd q \<noteq> snd p) ps) ps"
    by simp
  with 2 have "subseq (dedupe_first (filter (\<lambda>q. snd q \<noteq> snd p) ps)) ps"
    using subseq_order.trans by blast
  then show ?case by simp
qed

lemma find_filter_other:
  "k \<noteq> u \<Longrightarrow> find (\<lambda>q. snd q = k) (filter (\<lambda>q. snd q \<noteq> u) ps) = find (\<lambda>q. snd q = k) ps"
  by (induction ps) auto

lemma dedupe_first_is_first:
  "r \<in> set (dedupe_first xs) \<Longrightarrow> find (\<lambda>q. snd q = snd r) xs = Some r"
proof (induction xs rule: dedupe_first.induct)
  case 1
  then show ?case by simp
next
  case (2 p ps)
  show ?case
  proof (cases "r = p")
    case True
    then show ?thesis by simp
  next
    case False
    with "2.prems" have m: "r \<in> set (dedupe_first (filter (\<lambda>q. snd q \<noteq> snd p) ps))"
      by simp
    then have "snd r \<in> snd ` set (dedupe_first (filter (\<lambda>q. snd q \<noteq> snd p) ps))"
      by (rule imageI)
    then have "snd r \<in> snd ` set (filter (\<lambda>q. snd q \<noteq> snd p) ps)"
      unfolding dedupe_first_links .
    then have ne: "snd r \<noteq> snd p" by auto
    from "2.IH"[OF m] have "find (\<lambda>q. snd q = snd r) ps = Some r"
      using ne by (simp add: find_filter_other)
    then show ?thesis using ne by simp
  qed
qed

text \<open>
  C5. The extractor's result is the list of candidate pairs, in the order the tables and rows
  gave them, with every pair dropped whose link an earlier pair carries: it is a subsequence
  of the candidates, no link occurs twice in it, every link of a candidate occurs in it, and
  each of its pairs is the first candidate with that link, so it carries the name of the
  first occurrence.
\<close>

theorem extract_entity_links_first_wins:
  "extract_entity_links j tables = dedupe_first (tables_loop j tables [])
   \<and> subseq (extract_entity_links j tables) (tables_loop j tables [])
   \<and> distinct (map snd (extract_entity_links j tables))
   \<and> snd ` set (extract_entity_links j tables) = snd ` set (tables_loop j tables [])
   \<and> (\<forall>p\<in>set (extract_entity_links j tables).
         find (\<lambda>q. snd q = snd p) (tables_loop j tables []) = Some p)"
proof -
  have e: "extract_entity_links j tables = dedupe_first (tables_loop j tables [])"
    by (simp add: extract_entity_links_def dedupe_loop_spec)
  have f: "\<forall>p\<in>set (dedupe_first (tables_loop j tables [])).
         find (\<lambda>q. snd q = snd p) (tables_loop j tables []) = Some p"
    using dedupe_first_is_first by blast
  show ?thesis
    unfolding e
    by (intro conjI refl dedupe_first_subseq dedupe_first_distinct dedupe_first_links f)
qed

lemmas table_eval = char_eval table_step_def row_candidate_def is_wiki_article_link_def
  normalize_wiki_href_def WIKI_def is_team_col_def text_cell_def link_cell_def

theorem extract_entity_links_first_wins_witness:
  "tables_loop (\<lambda>b h. b @ h) dup_tables [] =
     [(ustr ''Arsenal F.C.'', ustr ''https://en.wikipedia.org/wiki/Arsenal_F.C.''),
      (ustr ''Chelsea F.C.'', ustr ''https://en.wikipedia.org/wiki/Chelsea_F.C.''),
      (ustr ''Everton F.C.'', ustr ''https://en.wikipedia.org/wiki/Everton_F.C.''),
      (ustr ''Arsenal'', ustr ''https://en.wikipedia.org/wiki/Arsenal_F.C.'')]
   \<and> extract_entity_links (\<lambda>b h. b @ h) dup_tables =
     [(ustr ''Arsenal F.C.'', ustr ''https://en.wikipedia.org/wiki/Arsenal_F.C.''),
      (ustr ''Chelsea F.C.'', ustr ''https://en.wikipedia.org/wiki/Chelsea_F.C.''),
      (ustr ''Everton F.C.'', ustr ''https://en.wikipedia.org/wiki/Everton_F.C.'')]
   \<and> find (\<lambda>q. snd q = ustr ''https://en.wikipedia.org/wiki/Arsenal_F.C.'')
        (tables_loop (\<lambda>b h. b @ h) dup_tables [])
      = Some (ustr ''Arsenal F.C.'', ustr ''https://en.wikipedia.org/wiki/Arsenal_F.C.'')"
proof -
  have c: "tables_loop (\<lambda>b h. b @ h) dup_tables [] =
     [(ustr ''Arsenal F.C.'', ustr ''https://en.wikipedia.org/wiki/Arsenal_F.C.''),
      (ustr ''Chelsea F.C.'', ustr ''https://en.wikipedia.org/wiki/Chelsea_F.C.''),
      (ustr ''Everton F.C.'', ustr ''https://en.wikipedia.org/wiki/Everton_F.C.''),
      (ustr ''Arsenal'', ustr ''https://en.wikipedia.org/wiki/Arsenal_F.C.'')]"
    by (simp add: dup_tables_def table_eval)
  have d: "dedupe_first
     [(ustr ''Arsenal F.C.'', ustr ''https://en.wikipedia.org/wiki/Arsenal_F.C.''),
      (ustr ''Chelsea F.C.'', ustr ''https://en.wikipedia.org/wiki/Chelsea_F.C.''),
      (ustr ''Everton F.C.'', ustr ''https://en.wikipedia.org/wiki/Everton_F.C.''),
      (ustr ''Arsenal'', ustr ''https://en.wikipedia.org/wiki/Arsenal_F.C.'')] =
     [(ustr ''Arsenal F.C.'', ustr ''https://en.wikipedia.org/wiki/Arsenal_F.C.''),
      (ustr ''Chelsea F.C.'', ustr ''https://en.wikipedia.org/wiki/Chelsea_F.C.''),
      (ustr ''Everton F.C.'', ustr ''https://en.wikipedia.org/wiki/Everton_F.C.'')]"
    by (simp add: ustr_def)
  have m: "(ustr ''Arsenal F.C.'', ustr ''https://en.wikipedia.org/wiki/Arsenal_F.C.'')
      \<in> set [(ustr ''Arsenal F.C.'', ustr ''https://en.wikipedia.org/wiki/Arsenal_F.C.''),
      (ustr ''Chelsea F.C.'', ustr ''https://en.wikipedia.org/wiki/Chelsea_F.C.''),
      (ustr ''Everton F.C.'', ustr ''https://en.wikipedia.org/wiki/Everton_F.C.'')]"
    by simp
  from extract_entity_links_first_wins[of "\<lambda>b h. b @ h" dup_tables]
  have e: "extract_entity_links (\<lambda>b h. b @ h) dup_tables
             = dedupe_first (tables_loop (\<lambda>b h. b @ h) dup_tables [])"
    and f: "\<forall>p\<in>set (extract_entity_links (\<lambda>b h. b @ h) dup_tables).
         find (\<lambda>q. snd q = snd p) (tables_loop (\<lambda>b h. b @ h) dup_tables []) = Some p"
    by blast+
  have e': "extract_entity_links (\<lambda>b h. b @ h) dup_tables =
     [(ustr ''Arsenal F.C.'', ustr ''https://en.wikipedia.org/wiki/Arsenal_F.C.''),
      (ustr ''Chelsea F.C.'', ustr ''https://en.wikipedia.org/wiki/Chelsea_F.C.''),
      (ustr ''Everton F.C.'', ustr ''https://en.wikipedia.org/wiki/Everton_F.C.'')]"
    unfolding e c d by (rule refl)
  have g: "find (\<lambda>q. snd q = ustr ''https://en.wikipedia.org/wiki/Arsenal_F.C.'')
        (tables_loop (\<lambda>b h. b @ h) dup_tables [])
      = Some (ustr ''Arsenal F.C.'', ustr ''https://en.wikipedia.org/wiki/Arsenal_F.C.'')"
    using f m unfolding e' by fastforce
  show ?thesis using c e' g by blast
qed


section \<open>Alias Generator\<close>

lemma build_aliases_set:
  "set (build_aliases lower name) \<subseteq> {a. a \<noteq> []}
   \<and> (strip (replace (ustr ''.'') [] (lower name)) \<noteq> []
        \<longrightarrow> strip (replace (ustr ''.'') [] (lower name)) \<in> set (build_aliases lower name))"
  unfolding build_aliases_def Let_def by auto

text \<open>
  C4 fails as stated. \<open>build_aliases\<close> never calls the Text Normalizer: the form it keeps
  of the full name is the lower-cased name without full stops, where the normalizer writes
  \<open>_\<close> for white space. And the filter of line 79 leaves nothing of an empty name.
\<close>

theorem build_aliases_counterexample:
  "build_aliases (map lower_ascii) (ustr ''Arsenal F.C.'')
     = [ustr ''af'', ustr ''arsenal'', ustr ''arsenal fc'']
   \<and> normalise (\<lambda>s. s) (ustr ''Arsenal F.C.'') = ustr ''arsenal_fc''
   \<and> normalise (\<lambda>s. s) (ustr ''Arsenal F.C.'')
       \<notin> set (build_aliases (map lower_ascii) (ustr ''Arsenal F.C.''))
   \<and> build_aliases (map lower_ascii) [] = []"
proof -
  have a: "build_aliases (map lower_ascii) (ustr ''Arsenal F.C.'')
     = [ustr ''af'', ustr ''arsenal'', ustr ''arsenal fc'']"
    by (simp add: build_aliases_def strip_def is_lower_digit_def norm_eval)
  have b: "normalise (\<lambda>s. s) (ustr ''Arsenal F.C.'') = ustr ''arsenal_fc''"
    by (simp add: norm_eval)
  have c: "ustr ''arsenal_fc'' \<notin> set [ustr ''af'', ustr ''arsenal'', ustr ''arsenal fc'']"
    by (simp add: ustr_def)
  have d: "build_aliases (map lower_ascii) [] = []"
    by (simp add: build_aliases_def strip_def is_lower_digit_def norm_eval)
  show ?thesis unfolding a b using c d by simp
qed

text \<open>
  C4, amended. The result is sorted, has no duplicates and no empty string. Whenever the
  lower-cased name without its full stops is not empty or all white space, the result is
  non-empty and contains that string, stripped.
\<close>

theorem build_aliases_contains_base:
  "sorted (build_aliases lower name) \<and> distinct (build_aliases lower name)
   \<and> [] \<notin> set (build_aliases lower name)
   \<and> (strip (replace (ustr ''.'') [] (lower name)) \<noteq> []
        \<longrightarrow> build_aliases lower name \<noteq> []
            \<and> strip (replace (ustr ''.'') [] (lower name)) \<in> set (build_aliases lower name))"
proof -
  have s: "sorted (build_aliases lower name)" "distinct (build_aliases lower name)"
    unfolding build_aliases_def Let_def by simp_all
  have e: "[] \<notin> set (build_aliases lower name)"
    using build_aliases_set[of lower name] by blast
  have m: "strip (replace (ustr ''.'') [] (lower name)) \<noteq> []
        \<longrightarrow> build_aliases lower name \<noteq> []
            \<and> strip (replace (ustr ''.'') [] (lower name)) \<in> set (build_aliases lower name)"
    using build_aliases_set[of lower name] by fastforce
  show ?thesis using s e m by blast
qed

theorem build_aliases_contains_base_witness:
  "strip (replace (ustr ''.'') [] (map lower_ascii (ustr ''Arsenal F.C.''))) = ustr ''arsenal fc''
   \<and> ustr ''arsenal fc'' \<noteq> []
   \<and> ustr ''arsenal fc'' \<in> set (build_aliases (map lower_ascii) (ustr ''Arsenal F.C.''))
   \<and> sorted (build_aliases (map lower_ascii) (ustr ''Arsenal F.C.''))"
proof -
  have a: "strip (replace (ustr ''.'') [] (map lower_ascii (ustr ''Arsenal F.C.'')))
      = ustr ''arsenal fc''"
    by (simp add: strip_def norm_eval)
  have b: "ustr ''arsenal fc'' \<noteq> []"
    by (simp add: ustr_def)
  show ?thesis
    using build_aliases_contains_base[of "map lower_ascii" "ustr ''Arsenal F.C.''"] b
    unfolding a by blast
qed


section \<open>Coordinate Extractor\<close>

lemma parse_geo_Inr_iff:
  "parse_geo flt txt = Inr (x, y) \<longleftrightarrow>
     (\<exists>a b. map strip (split_on 59 txt) = [a, b] \<and> flt a = Some x \<and> flt b = Some y)"
  unfolding parse_geo_def by (auto split: list.splits option.splits)

lemma parse_geo_cases:
  "(\<exists>c. parse_geo flt txt = Inr c) \<or> parse_geo flt txt = Inl ValueError"
  unfolding parse_geo_def by (auto split: list.splits option.splits)

lemma coords_of_page_no_geo: "geo pg = None \<Longrightarrow> coords_of_page flt pg = None"
  unfolding coords_of_page_def by (simp split: option.splits)

lemma coords_of_page_geo:
  "geo pg = Some txt \<Longrightarrow>
     coords_of_page flt pg = (case parse_geo flt txt of Inr c \<Rightarrow> Some c | Inl e \<Rightarrow> None)"
  unfolding coords_of_page_def by (simp split: option.splits sum.splits)

lemma coords_of_page_Some_iff:
  "coords_of_page flt pg = Some (x, y) \<longleftrightarrow>
     (\<exists>txt a b. geo pg = Some txt \<and> map strip (split_on 59 txt) = [a, b]
        \<and> flt a = Some x \<and> flt b = Some y)"
proof (cases "geo pg")
  case None
  then show ?thesis by (simp add: coords_of_page_no_geo)
next
  case (Some t)
  have "coords_of_page flt pg = Some (x, y) \<longleftrightarrow> parse_geo flt t = Inr (x, y)"
    using Some by (simp add: coords_of_page_geo split: sum.splits)
  then show ?thesis using Some by (simp add: parse_geo_Inr_iff)
qed

text \<open>
  C8. For a page that was fetched: when the text of its \<open>span.geo\<close> marker splits at
  \<open>;\<close> into exactly two parts that, stripped, both convert to numbers, the result is that
  pair of numbers; when the marker's text is anything else the result is none, not an
  exception; and when the page has no such marker the result is none, whether or not it has a
  \<open>span.geo-dec\<close> marker.
\<close>

theorem extract_coords_marker:
  assumes "u \<noteq> []" and "http_get env u = Inr pg"
  shows "(\<forall>txt a b x y. geo pg = Some txt \<and> map strip (split_on 59 txt) = [a, b]
             \<and> py_float env a = Some x \<and> py_float env b = Some y
           \<longrightarrow> extract_coords_from_wiki_page env (Some u) = Inr (Some (x, y)))
       \<and> (\<forall>txt. geo pg = Some txt
             \<and> \<not> (\<exists>a b x y. map strip (split_on 59 txt) = [a, b]
                     \<and> py_float env a = Some x \<and> py_float env b = Some y)
           \<longrightarrow> extract_coords_from_wiki_page env (Some u) = Inr None)
       \<and> (geo pg = None \<longrightarrow> extract_coords_from_wiki_page env (Some u) = Inr None)"
proof -
  have e: "extract_coords_from_wiki_page env (Some u) = Inr (coords_of_page (py_float env) pg)"
    using assms by (simp add: extract_coords_from_wiki_page_def truthy_def)
  have a: "\<forall>txt a b x y. geo pg = Some txt \<and> map strip (split_on 59 txt) = [a, b]
             \<and> py_float env a = Some x \<and> py_float env b = Some y
           \<longrightarrow> coords_of_page (py_float env) pg = Some (x, y)"
  proof (intro allI impI)
    fix t a b x y
    assume h: "geo pg = Some t \<and> map strip (split_on 59 t) = [a, b]
             \<and> py_float env a = Some x \<and> py_float env b = Some y"
    then have "parse_geo (py_float env) t = Inr (x, y)"
      by (simp add: parse_geo_Inr_iff)
    then show "coords_of_page (py_float env) pg = Some (x, y)"
      using h by (simp add: coords_of_page_geo)
  qed
  have b: "\<forall>txt. geo pg = Some txt
             \<and> \<not> (\<exists>a b x y. map strip (split_on 59 txt) = [a, b]
                     \<and> py_float env a = Some x \<and> py_float env b = Some y)
           \<longrightarrow> coords_of_page (py_float env) pg = None"
  proof (intro allI impI)
    fix t
    assume h: "geo pg = Some t
             \<and> \<not> (\<exists>a b x y. map strip (split_on 59 t) = [a, b]
                     \<and> py_float env a = Some x \<and> py_float env b = Some y)"
    show "coords_of_page (py_float env) pg = None"
    proof (cases "coords_of_page (py_float env) pg")
      case None
      then show ?thesis .
    next
      case (Some c)
      obtain x y where "c = (x, y)" by (cases c)
      with Some have "coords_of_page (py_float env) pg = Some (x, y)" by simp
      then have "\<exists>s a b. geo pg = Some s \<and> map strip (split_on 59 s) = [a, b]
        \<and> py_float env a = Some x \<and> py_float env b = Some y"
        by (simp only: coords_of_page_Some_iff)
      then obtain s a b where k: "geo pg = Some s" "map strip (split_on 59 s) = [a, b]"
        "py_float env a = Some x" "py_float env b = Some y"
        by (elim exE conjE)
      from k(1) h have "s = t" by simp
      with k h show ?thesis by auto
    qed
  qed
  have c: "geo pg = None \<longrightarrow> coords_of_page (py_float env) pg = None"
    by (simp add: coords_of_page_no_geo)
  show ?thesis unfolding e using a b c by simp
qed

lemmas float_eval = decimal_float_def digits_val_def strip_def strip_by_def char_eval Let_def

theorem extract_coords_marker_witness:
  "extract_coords_from_wiki_page
      (example_env\<lparr>http_get := \<lambda>u. Inr (empty_page\<lparr>geo := Some (ustr ''51.508; -0.262'')\<rparr>)\<rparr>)
      (Some (ustr ''u'')) = Inr (Some (51508 / 1000, - (262 / 1000)))
   \<and> extract_coords_from_wiki_page
      (example_env\<lparr>http_get := \<lambda>u. Inr (empty_page\<lparr>geo := Some (ustr ''N/A'')\<rparr>)\<rparr>)
      (Some (ustr ''u'')) = Inr None
   \<and> extract_coords_from_wiki_page
      (example_env\<lparr>http_get := \<lambda>u. Inr (empty_page\<lparr>geo := Some (ustr ''51.508, -0.262'')\<rparr>)\<rparr>)
      (Some (ustr ''u'')) = Inr None
   \<and> extract_coords_from_wiki_page
      (example_env\<lparr>http_get := \<lambda>u. Inr (empty_page\<lparr>geo_dec := Some (ustr ''51.507 N 0.127 W'')\<rparr>)\<rparr>)
      (Some (ustr ''u'')) = Inr None"
proof -
  let ?e1 = "example_env\<lparr>http_get := \<lambda>u. Inr (empty_page\<lparr>geo := Some (ustr ''51.508; -0.262'')\<rparr>)\<rparr>"
  let ?e2 = "example_env\<lparr>http_get := \<lambda>u. Inr (empty_page\<lparr>geo := Some (ustr ''N/A'')\<rparr>)\<rparr>"
  let ?e3 = "example_env\<lparr>http_get := \<lambda>u. Inr (empty_page\<lparr>geo := Some (ustr ''51.508, -0.262'')\<rparr>)\<rparr>"
  let ?e4 = "example_env\<lparr>http_get := \<lambda>u. Inr (empty_page\<lparr>geo_dec := Some (ustr ''51.507 N 0.127 W'')\<rparr>)\<rparr>"
  have u: "ustr ''u'' \<noteq> []" by (simp add: ustr_def)
  have s1: "map strip (split_on 59 (ustr ''51.508; -0.262'')) = [ustr ''51.508'', ustr ''-0.262'']"
    by (simp add: strip_def strip_by_def char_eval)
  have f1: "decimal_float (ustr ''51.508'') = Some (51508 / 1000)"
    by (simp add: float_eval)
  have f2: "decimal_float (ustr ''-0.262'') = Some (- (262 / 1000))"
    by (simp add: float_eval)
  have s2: "map strip (split_on 59 (ustr ''N/A'')) = [ustr ''N/A'']"
    by (simp add: strip_def strip_by_def char_eval)
  have s3: "map strip (split_on 59 (ustr ''51.508, -0.262'')) = [ustr ''51.508, -0.262'']"
    by (simp add: strip_def strip_by_def char_eval)
  have r1: "extract_coords_from_wiki_page ?e1 (Some (ustr ''u''))
      = Inr (Some (51508 / 1000, - (262 / 1000)))"
    using extract_coords_marker[of "ustr ''u''" ?e1 "empty_page\<lparr>geo := Some (ustr ''51.508; -0.262'')\<rparr>"]
      u s1 f1 f2
    by (simp add: example_env_def empty_page_def)
  have r2: "extract_coords_from_wiki_page ?e2 (Some (ustr ''u'')) = Inr None"
    using extract_coords_marker[of "ustr ''u''" ?e2 "empty_page\<lparr>geo := Some (ustr ''N/A'')\<rparr>"]
      u s2
    by (simp add: example_env_def empty_page_def)
  have r3: "extract_coords_from_wiki_page ?e3 (Some (ustr ''u'')) = Inr None"
    using extract_coords_marker[of "ustr ''u''" ?e3 "empty_page\<lparr>geo := Some (ustr ''51.508, -0.262'')\<rparr>"]
      u s3
    by (simp add: example_env_def empty_page_def)
  have r4: "extract_coords_from_wiki_page ?e4 (Some (ustr ''u'')) = Inr None"
    using extract_coords_marker[of "ustr ''u''" ?e4 "empty_page\<lparr>geo_dec := Some (ustr ''51.507 N 0.127 W'')\<rparr>"]
      u
    by (simp add: example_env_def empty_page_def)
  show ?thesis using r1 r2 r3 r4 by blast
qed


section \<open>Scraping Pipeline: the coordinates of a record\<close>

lemma extract_coords_Some:
  assumes "extract_coords_from_wiki_page env gu = Inr (Some (x, y))"
  shows "\<exists>u pg t a b. gu = Some u \<and> http_get env u = Inr pg \<and> geo pg = Some t
           \<and> map strip (split_on 59 t) = [a, b]
           \<and> py_float env a = Some x \<and> py_float env b = Some y"
proof -
  from assms have tr: "truthy gu"
    by (auto simp: extract_coords_from_wiki_page_def split: if_splits)
  then obtain u where u: "gu = Some u"
    by (cases gu) (auto simp: truthy_def)
  from assms tr u obtain pg where pg: "http_get env u = Inr pg"
    "coords_of_page (py_float env) pg = Some (x, y)"
    by (auto simp: extract_coords_from_wiki_page_def split: sum.splits)
  from pg(2) obtain t a b where "geo pg = Some t" "map strip (split_on 59 t) = [a, b]"
    "py_float env a = Some x" "py_float env b = Some y"
    unfolding coords_of_page_Some_iff by auto
  with u pg(1) show ?thesis by auto
qed

text \<open>What the \<open>try\<close> block can do to the state: nothing, one log line, or one record.\<close>

lemma try_body_cases:
  assumes "try_body env lg cid cname curl st = (r, st')"
  shows "(r \<noteq> None \<and> st' = st)
     \<or> (r = None \<and> all_clubs st' = all_clubs st)
     \<or> (r = None \<and> (\<exists>rc. all_clubs st' = (all_clubs st)(cid \<mapsto> rc) \<and> marker_coords env rc))"
proof (cases "find_home_ground_link env curl")
  case (Inl e)
  with assms show ?thesis by (auto simp: try_body_def)
next
  case (Inr g)
  show ?thesis
  proof (cases g)
    case None
    with Inr assms show ?thesis by (auto simp: try_body_def)
  next
    case (Some p)
    obtain gname gurl where p: "p = (gname, gurl)" by (cases p)
    let ?c = "if truthy gurl then extract_coords_from_wiki_page env gurl else Inr None"
    show ?thesis
    proof (cases ?c)
      case (Inl e)
      with Inr Some p assms show ?thesis by (auto simp: try_body_def)
    next
      case cr: (Inr co)
      show ?thesis
      proof (cases co)
        case None
        with cr Inr Some p assms show ?thesis by (auto simp: try_body_def)
      next
        case sc: (Some xy)
        obtain x y where xy: "xy = (x, y)" by (cases xy)
        from cr sc xy have ex: "extract_coords_from_wiki_page env gurl = Inr (Some (x, y))"
          by (auto split: if_splits)
        from extract_coords_Some[OF ex] obtain u pg t a b where m: "gurl = Some u"
          "http_get env u = Inr pg" "geo pg = Some t" "map strip (split_on 59 t) = [a, b]"
          "py_float env a = Some x" "py_float env b = Some y"
          by auto
        let ?rc = "\<lparr>rec_id = cid, rec_name = cname, rec_country = country lg,
                       rec_league = code lg, rec_tier = tier lg,
                       rec_lat = round6 env x, rec_lon = round6 env y,
                       rec_ground = gname,
                       rec_aliases = build_aliases (str_lower env) cname,
                       rec_wikipedia = curl, rec_ground_wikipedia = gurl\<rparr>"
        have mc: "marker_coords env ?rc"
          unfolding marker_coords_def using m by auto
        have "r = None \<and> all_clubs st' = (all_clubs st)(cid \<mapsto> ?rc)"
          using cr sc xy Inr Some p assms by (auto simp: try_body_def)
        with mc show ?thesis by blast
      qed
    qed
  qed
qed

lemma process_club_all_clubs:
  "all_clubs (process_club env lg st (cname, curl))
     = all_clubs (snd (try_body env lg (slugify env cname) cname curl st))"
  by (simp add: process_club_def Let_def split: prod.splits option.splits exn.splits)

lemma process_club_records_ok:
  assumes "records_ok env st"
  shows "records_ok env (process_club env lg st c)"
proof -
  obtain cname curl where c: "c = (cname, curl)" by (cases c)
  obtain r st' where t: "try_body env lg (slugify env cname) cname curl st = (r, st')"
    by fastforce
  have a: "all_clubs (process_club env lg st c) = all_clubs st'"
    unfolding c process_club_all_clubs t by simp
  from try_body_cases[OF t] consider "all_clubs st' = all_clubs st"
    | rc where "all_clubs st' = (all_clubs st)(slugify env cname \<mapsto> rc)" "marker_coords env rc"
    by auto
  then show ?thesis
  proof cases
    case 1
    with a assms show ?thesis by (simp add: records_ok_def)
  next
    case 2
    with a assms show ?thesis by (auto simp: records_ok_def)
  qed
qed

lemma club_loop_records_ok:
  "records_ok env st \<Longrightarrow> records_ok env (club_loop env lg cs st)"
  unfolding club_loop_def
  by (induction cs arbitrary: st) (simp_all add: process_club_records_ok)

lemma league_step_records_ok:
  assumes "records_ok env st"
  shows "records_ok env (snd (league_step env lg st))"
proof -
  have l: "\<And>ls. records_ok env (st\<lparr>log := ls\<rparr>)"
    using assms by (simp add: records_ok_def)
  show ?thesis
  proof (cases "scrape_club_links_from_league env (league_url lg)")
    case (Inl e)
    then show ?thesis by (simp add: league_step_def l)
  next
    case (Inr links)
    show ?thesis
    proof (cases "links = []")
      case True
      with Inr show ?thesis by (simp add: league_step_def l)
    next
      case False
      with Inr show ?thesis by (simp add: league_step_def club_loop_records_ok l)
    qed
  qed
qed

lemma league_loop_records_ok:
  "records_ok env st \<Longrightarrow> records_ok env (snd (league_loop env lgs st))"
proof (induction lgs arbitrary: st)
  case Nil
  then show ?case by simp
next
  case (Cons lg lgs)
  obtain r st' where s: "league_step env lg st = (r, st')" by fastforce
  have ok: "records_ok env st'"
    using league_step_records_ok[OF Cons.prems, of lg] s by simp
  show ?case
  proof (cases r)
    case None
    with s Cons.IH[OF ok] show ?thesis by simp
  next
    case (Some e)
    with s ok show ?thesis by simp
  qed
qed

lemmas world_eval = try_body_def find_home_ground_link_def extract_coords_from_wiki_page_def
  coords_of_page_def parse_geo_def example_env_def example_web_def example_league_def
  ground_page_def empty_page_def GROUND_LABELS_def is_wiki_article_link_def
  normalize_wiki_href_def WIKI_def truthy_def float_eval round6_real_def

lemmas main_eval = main_def league_step_def scrape_club_links_from_league_def
  extract_entity_links_def league_page_def club_loop_def process_club_def table_eval
  build_aliases_def is_lower_digit_def world_eval

text \<open>
  C9 fails as stated. Nothing between the marker and the record compares a coordinate with a
  bound: a ground page whose marker reads \<open>95.0; 200.0\<close> parses as two decimal numbers and
  gives a record with latitude 95 and longitude 200.
\<close>

theorem record_out_of_range_counterexample:
  "map_option (\<lambda>r. (rec_lat r, rec_lon r))
     (all_clubs (snd (main example_env [example_league])) (ustr ''farland'')) = Some (95, 200)
   \<and> \<not> ((95::real) \<le> 90) \<and> \<not> ((200::real) \<le> 180)"
  by (simp add: main_eval)

text \<open>
  C9, amended. Every record the pipeline emits has as latitude and longitude the two numbers
  of the \<open>span.geo\<close> marker of its ground page, each rounded to six decimal places; they lie
  in the geographic ranges exactly when those rounded numbers do.
\<close>

theorem emitted_record_coords:
  "all_clubs (snd (main env leagues)) k = Some r \<Longrightarrow> marker_coords env r"
proof -
  have "records_ok env \<lparr>all_clubs = Map.empty, log = []\<rparr>"
    by (simp add: records_ok_def)
  then have "records_ok env (snd (main env leagues))"
    unfolding main_def by (rule league_loop_records_ok)
  then show "all_clubs (snd (main env leagues)) k = Some r \<Longrightarrow> marker_coords env r"
    unfolding records_ok_def by blast
qed

theorem emitted_record_coords_witness:
  "map_option (\<lambda>r. (rec_lat r, rec_lon r, rec_ground_wikipedia r))
     (all_clubs (snd (main example_env [example_league])) (ustr ''arsenal''))
     = Some (51555 / 1000, - (108 / 1000), Some (ustr ''https://en.wikipedia.org/wiki/Emirates''))
   \<and> (\<exists>r. all_clubs (snd (main example_env [example_league])) (ustr ''arsenal'') = Some r
         \<and> marker_coords example_env r)"
proof -
  have a: "map_option (\<lambda>r. (rec_lat r, rec_lon r, rec_ground_wikipedia r))
     (all_clubs (snd (main example_env [example_league])) (ustr ''arsenal''))
     = Some (51555 / 1000, - (108 / 1000), Some (ustr ''https://en.wikipedia.org/wiki/Emirates''))"
    by (simp add: main_eval)
  then obtain r where r: "all_clubs (snd (main example_env [example_league])) (ustr ''arsenal'')
      = Some r"
    by auto
  from emitted_record_coords[OF r] have "marker_coords example_env r" .
  with a r show ?thesis by blast
qed


section \<open>Scraping Pipeline: isolation of a club's failure\<close>

lemma try_body_failure:
  assumes "fst (try_body env lg cid cname curl st) = Some e"
  shows "snd (try_body env lg cid cname curl st) = st"
proof -
  obtain r st' where t: "try_body env lg cid cname curl st = (r, st')" by fastforce
  from try_body_cases[OF t] assms t show ?thesis by auto
qed

lemma try_body_log_indep:
  assumes "all_clubs st1 = all_clubs st2"
  shows "all_clubs (snd (try_body env lg cid cname curl st1))
       = all_clubs (snd (try_body env lg cid cname curl st2))"
  using assms unfolding try_body_def
  by (simp split: sum.splits option.splits prod.splits)

lemma process_club_log_indep:
  assumes "all_clubs st1 = all_clubs st2"
  shows "all_clubs (process_club env lg st1 c) = all_clubs (process_club env lg st2 c)"
proof -
  obtain cname curl where c: "c = (cname, curl)" by (cases c)
  show ?thesis
    unfolding c process_club_all_clubs using assms by (rule try_body_log_indep)
qed

lemma club_loop_log_indep:
  "all_clubs st1 = all_clubs st2 \<Longrightarrow>
     all_clubs (club_loop env lg cs st1) = all_clubs (club_loop env lg cs st2)"
  unfolding club_loop_def
proof (induction cs arbitrary: st1 st2)
  case Nil
  then show ?case by simp
next
  case (Cons c cs)
  have "all_clubs (process_club env lg st1 c) = all_clubs (process_club env lg st2 c)"
    using Cons.prems by (rule process_club_log_indep)
  from Cons.IH[OF this] show ?case by simp
qed

lemma process_club_failure_log:
  assumes "fst (try_body env lg (slugify env cname) cname curl st) = Some e"
  shows "log (process_club env lg st (cname, curl))
     = log st @ [if e = HTTPError then HttpErrorLine cname e else ErrorLine cname e]"
proof -
  obtain r st' where t: "try_body env lg (slugify env cname) cname curl st = (r, st')"
    by fastforce
  with assms have r: "r = Some e" by simp
  from try_body_failure[OF assms] t have s: "st' = st" by simp
  show ?thesis
    by (cases e) (simp_all add: process_club_def Let_def t r s)
qed

lemma league_step_no_raise:
  "scrape_club_links_from_league env (league_url lg) = Inr links \<Longrightarrow>
     fst (league_step env lg st) = None"
  by (simp add: league_step_def Let_def)

text \<open>
  C2. When an exception leaves the \<open>try\<close> block of a club (raised by the fetch of the club
  page or of the ground page, or while the record is built), the iteration ends with the
  records accumulated so far unchanged and one more log line, the line of the handler that
  caught it; the loop goes on, and at its end the records are those of the run without that
  club. Once the league page has given its links, the iteration of the league loop raises
  nothing, whatever happens to the clubs.
\<close>

theorem club_failure_isolated:
  assumes "fst (try_body env lg (slugify env cname) cname curl (club_loop env lg before st0))
             = Some e"
  shows "all_clubs (process_club env lg (club_loop env lg before st0) (cname, curl))
           = all_clubs (club_loop env lg before st0)
     \<and> log (process_club env lg (club_loop env lg before st0) (cname, curl))
           = log (club_loop env lg before st0)
               @ [if e = HTTPError then HttpErrorLine cname e else ErrorLine cname e]
     \<and> all_clubs (club_loop env lg (before @ (cname, curl) # rest) st0)
           = all_clubs (club_loop env lg (before @ rest) st0)
     \<and> (\<forall>links. scrape_club_links_from_league env (league_url lg) = Inr links
           \<longrightarrow> fst (league_step env lg st) = None)"
proof -
  let ?st = "club_loop env lg before st0"
  have a: "all_clubs (process_club env lg ?st (cname, curl)) = all_clubs ?st"
    unfolding process_club_all_clubs try_body_failure[OF assms] by (rule refl)
  have b: "log (process_club env lg ?st (cname, curl))
           = log ?st @ [if e = HTTPError then HttpErrorLine cname e else ErrorLine cname e]"
    using assms by (rule process_club_failure_log)
  have "all_clubs (club_loop env lg rest (process_club env lg ?st (cname, curl)))
      = all_clubs (club_loop env lg rest ?st)"
    using a by (rule club_loop_log_indep)
  then have c: "all_clubs (club_loop env lg (before @ (cname, curl) # rest) st0)
           = all_clubs (club_loop env lg (before @ rest) st0)"
    by (simp add: club_loop_def)
  have d: "\<forall>links. scrape_club_links_from_league env (league_url lg) = Inr links
           \<longrightarrow> fst (league_step env lg st) = None"
    by (simp add: league_step_no_raise)
  show ?thesis using a b c d by blast
qed

theorem club_failure_isolated_witness:
  "log (process_club example_env example_league \<lparr>all_clubs = Map.empty, log = []\<rparr>
          (ustr ''Down'', ustr ''https://en.wikipedia.org/wiki/Down''))
     = [HttpErrorLine (ustr ''Down'') HTTPError]
   \<and> all_clubs (club_loop example_env example_league
          [(ustr ''Arsenal'', ustr ''https://en.wikipedia.org/wiki/Arsenal''),
           (ustr ''Down'', ustr ''https://en.wikipedia.org/wiki/Down''),
           (ustr ''Farland'', ustr ''https://en.wikipedia.org/wiki/Farland'')]
          \<lparr>all_clubs = Map.empty, log = []\<rparr>)
     = all_clubs (club_loop example_env example_league
          [(ustr ''Arsenal'', ustr ''https://en.wikipedia.org/wiki/Arsenal''),
           (ustr ''Farland'', ustr ''https://en.wikipedia.org/wiki/Farland'')]
          \<lparr>all_clubs = Map.empty, log = []\<rparr>)
   \<and> fst (main example_env [example_league]) = None
   \<and> dom (all_clubs (snd (main example_env [example_league])))
       = {ustr ''farland'', ustr ''arsenal''}"
proof -
  let ?st0 = "\<lparr>all_clubs = Map.empty, log = []\<rparr> :: real scrape_state"
  let ?a = "(ustr ''Arsenal'', ustr ''https://en.wikipedia.org/wiki/Arsenal'')"
  let ?f = "(ustr ''Farland'', ustr ''https://en.wikipedia.org/wiki/Farland'')"
  have h: "\<And>st. fst (try_body example_env example_league (slugify example_env (ustr ''Down''))
             (ustr ''Down'') (ustr ''https://en.wikipedia.org/wiki/Down'') st) = Some HTTPError"
    by (simp add: world_eval)
  have l: "scrape_club_links_from_league example_env (league_url example_league)
      = Inr [?a, (ustr ''Down'', ustr ''https://en.wikipedia.org/wiki/Down''), ?f]"
    by (simp add: scrape_club_links_from_league_def extract_entity_links_def league_page_def
        example_env_def example_web_def example_league_def empty_page_def table_eval)
  have m: "dom (all_clubs (snd (main example_env [example_league])))
       = {ustr ''farland'', ustr ''arsenal''}"
    by (simp add: main_eval)
  have m0: "main example_env [example_league]
      = league_step example_env example_league ?st0"
    by (simp add: main_def split: prod.splits option.splits)
  show ?thesis
    using club_failure_isolated[of example_env example_league "ustr ''Down''"
        "ustr ''https://en.wikipedia.org/wiki/Down''" "[]" ?st0 HTTPError "[?f]" ?st0,
        OF h]
      club_failure_isolated[of example_env example_league "ustr ''Down''"
        "ustr ''https://en.wikipedia.org/wiki/Down''" "[?a]" ?st0 HTTPError "[?f]" ?st0,
        OF h]
      l m
    by (simp add: club_loop_def m0)
qed


end
